theory Spec2Isabelle
  imports Complex_Main "HOL-Library.Code_Target_Nat" "HOL-Library.List_Lexorder"
begin

section \<open>JavaScript strings\<close>

text \<open>
  A JavaScript string is a sequence of UTF-16 code units; \<open>length\<close>, \<open>substring\<close>,
  \<open>split('')\<close> and the regular expressions of the sources (none carries the \<open>u\<close> flag) all
  count code units. A code unit is modelled by its number, a string by the list of its units.
  \<open>js\<close> reads an ASCII literal.
\<close>

type_synonym jstring = "nat list"

definition js :: "string \<Rightarrow> jstring" where
  "js s = map of_char s"

definition underscore :: nat where
  "underscore = 95"

definition space :: nat where
  "space = 32"

definition is_lower :: "nat \<Rightarrow> bool" where
  \<comment> \<open>the class \<open>[a-z]\<close>\<close>
  "is_lower c = (97 \<le> c \<and> c \<le> 122)"

definition is_upper :: "nat \<Rightarrow> bool" where
  \<comment> \<open>the class \<open>[A-Z]\<close>\<close>
  "is_upper c = (65 \<le> c \<and> c \<le> 90)"

definition is_digit :: "nat \<Rightarrow> bool" where
  \<comment> \<open>the class \<open>[0-9]\<close>\<close>
  "is_digit c = (48 \<le> c \<and> c \<le> 57)"

definition is_key_char :: "nat \<Rightarrow> bool" where
  \<comment> \<open>the class \<open>[a-z0-9_]\<close>\<close>
  "is_key_char c = (is_lower c \<or> is_digit c \<or> c = underscore)"

definition is_word :: "nat \<Rightarrow> bool" where
  \<comment> \<open>the class \<open>\w\<close>, that is \<open>[A-Za-z0-9_]\<close>\<close>
  "is_word c = (is_upper c \<or> is_lower c \<or> is_digit c \<or> c = underscore)"

definition is_space :: "nat \<Rightarrow> bool" where
  \<comment> \<open>the class \<open>\s\<close> of ECMAScript (white space and line terminators), which is also what
     \<open>trim\<close> removes\<close>
  "is_space c = ((9 \<le> c \<and> c \<le> 13) \<or> c = 32 \<or> c = 160 \<or> c = 5760 \<or>
     (8192 \<le> c \<and> c \<le> 8202) \<or> c = 8232 \<or> c = 8233 \<or> c = 8239 \<or> c = 8287 \<or>
     c = 12288 \<or> c = 65279)"

definition is_arabic :: "nat \<Rightarrow> bool" where
  \<comment> \<open>the ranges U+0600-06FF, U+0750-077F, U+08A0-08FF, U+FB50-FDFF, U+FE70-FEFF\<close>
  "is_arabic c = ((1536 \<le> c \<and> c \<le> 1791) \<or> (1872 \<le> c \<and> c \<le> 1919) \<or>
     (2208 \<le> c \<and> c \<le> 2303) \<or> (64336 \<le> c \<and> c \<le> 65023) \<or>
     (65136 \<le> c \<and> c \<le> 65279))"

definition lower_unit :: "nat \<Rightarrow> jstring" where
  \<comment> \<open>\<open>toLowerCase\<close> on one code unit. The units whose lower case is an ASCII letter are
     \<open>A-Z\<close>, the Kelvin sign U+212A and U+0130 (which becomes \<open>i\<close> followed by U+0307).
     Every other unit is kept: its real lower case, where it has one, is again a unit outside
     ASCII, outside the Arabic blocks and outside white space, and the functions below treat
     all of those alike.\<close>
  "lower_unit c =
     (if is_upper c then [c + 32]
      else if c = 8490 then [107]
      else if c = 304 then [105, 775]
      else [c])"

definition toLowerCase :: "jstring \<Rightarrow> jstring" where
  "toLowerCase s = concat (map lower_unit s)"

definition trim :: "jstring \<Rightarrow> jstring" where
  "trim s = rev (dropWhile is_space (rev (dropWhile is_space s)))"

definition substring0 :: "jstring \<Rightarrow> int \<Rightarrow> jstring" where
  \<comment> \<open>\<open>s.substring(0, n)\<close>: a negative \<open>n\<close> counts as 0, one past the end as the length\<close>
  "substring0 s n = take (nat n) s"

definition startsWith :: "jstring \<Rightarrow> jstring \<Rightarrow> bool" where
  "startsWith s p = (take (length p) s = p)"

definition endsWith :: "jstring \<Rightarrow> jstring \<Rightarrow> bool" where
  "endsWith s p = (length p \<le> length s \<and> drop (length s - length p) s = p)"

fun js_includes :: "jstring \<Rightarrow> jstring \<Rightarrow> bool" where
  \<comment> \<open>\<open>s.includes(p)\<close>: \<open>p\<close> occurs in \<open>s\<close> as a contiguous run\<close>
  "js_includes [] p = (p = [])"
| "js_includes (c # cs) p = (startsWith (c # cs) p \<or> js_includes cs p)"

function squeeze :: "(nat \<Rightarrow> bool) \<Rightarrow> nat \<Rightarrow> jstring \<Rightarrow> jstring" where
  \<comment> \<open>\<open>s.replace(/C+/g, r)\<close> for a character class \<open>C\<close> and a one-unit replacement \<open>r\<close>:
     every maximal run of units of the class becomes one \<open>r\<close>\<close>
  "squeeze P r [] = []"
| "squeeze P r (c # cs) =
     (if P c then r # squeeze P r (dropWhile P cs) else c # squeeze P r cs)"
  by pat_completeness auto
termination
  by (relation "measure (\<lambda>(P, r, s). length s)")
    (auto simp: le_imp_less_Suc length_dropWhile_le)

definition collapse_underscores :: "jstring \<Rightarrow> jstring" where
  \<comment> \<open>\<open>s.replace(/_{2,}/g, '_')\<close> and \<open>s.replace(/__+/g, '_')\<close>: a run of two or more
     underscores becomes one, a single underscore stays\<close>
  "collapse_underscores s = squeeze (\<lambda>c. c = underscore) underscore s"

definition strip_underscores :: "jstring \<Rightarrow> jstring" where
  \<comment> \<open>\<open>s.replace(/^_+|_+$/g, '')\<close>\<close>
  "strip_underscores s =
     rev (dropWhile (\<lambda>c. c = underscore) (rev (dropWhile (\<lambda>c. c = underscore) s)))"

definition strip_one_underscore :: "jstring \<Rightarrow> jstring" where
  \<comment> \<open>\<open>s.replace(/^_|_$/g, '')\<close>: one leading underscore goes, and one trailing underscore of
     what is left\<close>
  "strip_one_underscore s =
     (let t = (if s \<noteq> [] \<and> hd s = underscore then tl s else s)
      in if t \<noteq> [] \<and> last t = underscore then butlast t else t)"

fun split_on :: "nat \<Rightarrow> jstring \<Rightarrow> jstring list" where
  \<comment> \<open>\<open>s.split(sep)\<close> for a one-unit separator: the empty string gives one empty part\<close>
  "split_on sep [] = [[]]"
| "split_on sep (c # cs) =
     (case split_on sep cs of
        [] \<Rightarrow> [[c]]
      | p # ps \<Rightarrow> if c = sep then [] # p # ps else (c # p) # ps)"

function show_nat :: "nat \<Rightarrow> jstring" where
  \<comment> \<open>a counter inside a template literal: its decimal digits\<close>
  "show_nat n = (if n < 10 then [48 + n] else show_nat (n div 10) @ [48 + n mod 10])"
  by pat_completeness auto
termination
  by (relation "measure (\<lambda>n. n)") auto

declare show_nat.simps [simp del]

definition numbered :: "jstring \<Rightarrow> nat \<Rightarrow> jstring" where
  \<comment> \<open>the template \<open>`${key}_${counter}`\<close>\<close>
  "numbered key counter = key @ [underscore] @ show_nat counter"

section \<open>KeyValidator\<close>

text \<open>
  A \<open>RegExp\<close> of the rules is known by its \<open>source\<close> (which \<open>fixForbiddenPattern\<close>
  switches on), by the strings it matches (\<open>test\<close>) and by what \<open>key.replace(pattern, r)\<close>
  returns. None of the rules' expressions carries a flag, so \<open>test\<close> has no state.
\<close>

record RegExp =
  source :: string
  test :: "jstring \<Rightarrow> bool"
  replace :: "jstring \<Rightarrow> jstring \<Rightarrow> jstring"

record KeyValidationRules =
  maxLength :: int
  minLength :: int
  allowedCharacters :: RegExp
  forbiddenPatterns :: "RegExp list"
  reservedWords :: "jstring list"
  requirePrefix :: "jstring option"
  requireSuffix :: "jstring option"
  caseSensitive :: bool

definition allowed_re :: RegExp where
  \<comment> \<open>\<open>/^[a-z0-9_]+$/\<close>\<close>
  "allowed_re = \<lparr>source = ''^[a-z0-9_]+$'',
     test = (\<lambda>s. s \<noteq> [] \<and> list_all is_key_char s),
     replace = (\<lambda>r s. if s \<noteq> [] \<and> list_all is_key_char s then r else s)\<rparr>"

definition only_underscores_re :: RegExp where
  \<comment> \<open>\<open>/^_+$/\<close>\<close>
  "only_underscores_re = \<lparr>source = ''^_+$'',
     test = (\<lambda>s. s \<noteq> [] \<and> list_all (\<lambda>c. c = underscore) s),
     replace = (\<lambda>r s. if s \<noteq> [] \<and> list_all (\<lambda>c. c = underscore) s then r else s)\<rparr>"

definition only_digits_re :: RegExp where
  \<comment> \<open>\<open>/^[0-9]+$/\<close>\<close>
  "only_digits_re = \<lparr>source = ''^[0-9]+$'',
     test = (\<lambda>s. s \<noteq> [] \<and> list_all is_digit s),
     replace = (\<lambda>r s. if s \<noteq> [] \<and> list_all is_digit s then r else s)\<rparr>"

fun has_double_underscore :: "jstring \<Rightarrow> bool" where
  "has_double_underscore (a # b # cs) =
     ((a = underscore \<and> b = underscore) \<or> has_double_underscore (b # cs))"
| "has_double_underscore cs = False"

fun replace_first_run :: "jstring \<Rightarrow> jstring \<Rightarrow> jstring" where
  \<comment> \<open>\<open>s.replace(/__+/, r)\<close>: the first run of two or more underscores\<close>
  "replace_first_run r (a # b # cs) =
     (if a = underscore \<and> b = underscore then r @ dropWhile (\<lambda>c. c = underscore) cs
      else a # replace_first_run r (b # cs))"
| "replace_first_run r cs = cs"

definition multiple_underscores_re :: RegExp where
  \<comment> \<open>\<open>/__+/\<close>\<close>
  "multiple_underscores_re = \<lparr>source = ''__+'',
     test = has_double_underscore,
     replace = replace_first_run\<rparr>"

definition edge_underscore_re :: RegExp where
  \<comment> \<open>\<open>/^_|_$/\<close>\<close>
  "edge_underscore_re = \<lparr>source = ''^_|_$'',
     test = (\<lambda>s. s \<noteq> [] \<and> (hd s = underscore \<or> last s = underscore)),
     replace = (\<lambda>r s. if s \<noteq> [] \<and> hd s = underscore then r @ tl s
                       else if s \<noteq> [] \<and> last s = underscore then butlast s @ r
                       else s)\<rparr>"

definition DEFAULT_KEY_RULES :: KeyValidationRules where
  "DEFAULT_KEY_RULES = \<lparr>
     maxLength = 100,
     minLength = 2,
     allowedCharacters = allowed_re,
     forbiddenPatterns =
       [only_underscores_re, only_digits_re, multiple_underscores_re, edge_underscore_re],
     reservedWords = map js
       [''undefined'', ''null'', ''true'', ''false'', ''function'', ''var'', ''let'', ''const'',
        ''if'', ''else'', ''for'', ''while'', ''do'', ''switch'', ''case'', ''default'', ''break'',
        ''continue'', ''return'', ''try'', ''catch'', ''finally'', ''throw'', ''new'', ''this'',
        ''super'', ''class'', ''extends'', ''import'', ''export'', ''from'', ''as'', ''default''],
     requirePrefix = None,
     requireSuffix = None,
     caseSensitive = False\<rparr>"

text \<open>
  The validator owns its rules and the set of used keys. A JavaScript \<open>Set\<close> keeps its
  members in insertion order, so it is a list without repetitions.
\<close>

record KeyValidator =
  rules :: KeyValidationRules
  usedKeys :: "jstring list"

definition new_KeyValidator :: "KeyValidationRules \<Rightarrow> KeyValidator" where
  \<comment> \<open>the constructor, with the rules already merged over the defaults\<close>
  "new_KeyValidator r = \<lparr>rules = r, usedKeys = []\<rparr>"

definition set_add :: "jstring list \<Rightarrow> jstring \<Rightarrow> jstring list" where
  \<comment> \<open>\<open>Set.prototype.add\<close>\<close>
  "set_add ks k = (if k \<in> set ks then ks else ks @ [k])"

definition markKeyAsUsed :: "KeyValidator \<Rightarrow> jstring \<Rightarrow> KeyValidator" where
  "markKeyAsUsed v key = v\<lparr>usedKeys := set_add (usedKeys v) key\<rparr>"

definition addExistingKeys :: "KeyValidator \<Rightarrow> jstring list \<Rightarrow> KeyValidator" where
  "addExistingKeys v keys = v\<lparr>usedKeys := foldl set_add (usedKeys v) keys\<rparr>"

definition isKeyUsed :: "KeyValidator \<Rightarrow> jstring \<Rightarrow> bool" where
  "isKeyUsed v key = (key \<in> set (usedKeys v))"

definition clearUsedKeys :: "KeyValidator \<Rightarrow> KeyValidator" where
  "clearUsedKeys v = v\<lparr>usedKeys := []\<rparr>"

definition sanitizeKey :: "jstring \<Rightarrow> jstring" where
  "sanitizeKey key =
     strip_underscores
       (collapse_underscores (map (\<lambda>c. if is_key_char c then c else underscore) key))"

definition fixForbiddenPattern :: "jstring \<Rightarrow> RegExp \<Rightarrow> jstring" where
  "fixForbiddenPattern key pattern =
     (if source pattern = ''^_+$'' then js ''unnamed_key''
      else if source pattern = ''^[0-9]+$'' then js ''key_'' @ key
      else if source pattern = ''__+'' then collapse_underscores key
      else if source pattern = ''^_|_$'' then strip_underscores key
      else replace pattern [underscore] key)"

fun validator_truncate_loop :: "int \<Rightarrow> jstring \<Rightarrow> jstring list \<Rightarrow> jstring" where
  \<comment> \<open>the \<open>for (const part of parts)\<close> loop of \<open>KeyValidator.truncateKey\<close>, \<open>result\<close> being the
     accumulator; the \<open>else\<close> branch ends the loop\<close>
  "validator_truncate_loop maxLen result [] = result"
| "validator_truncate_loop maxLen result (part # parts) =
     (if int (length result) + int (length part) + 1 \<le> maxLen
      then validator_truncate_loop maxLen (result @ (if result \<noteq> [] then [underscore] else []) @ part) parts
      else
        (let remaining = maxLen - int (length result) - 1
         in if remaining > 0
            then result @ (if result \<noteq> [] then [underscore] else []) @ substring0 part remaining
            else result))"

definition validator_truncateKey :: "KeyValidationRules \<Rightarrow> jstring \<Rightarrow> jstring" where
  "validator_truncateKey r key =
     (if int (length key) \<le> maxLength r then key
      else
        (let parts = split_on underscore key
         in if length parts = 1 then substring0 key (maxLength r)
            else
              (let result = validator_truncate_loop (maxLength r) [] parts
               in if result \<noteq> [] then result else substring0 key (maxLength r))))"

fun pad_suffixes :: "int \<Rightarrow> jstring \<Rightarrow> jstring list \<Rightarrow> jstring option" where
  \<comment> \<open>the loop over the suffixes of \<open>padKey\<close>: the first padded key that is long enough\<close>
  "pad_suffixes minLen key [] = None"
| "pad_suffixes minLen key (suffix # suffixes) =
     (let padded = key @ [underscore] @ suffix
      in if int (length padded) \<ge> minLen then Some padded
         else pad_suffixes minLen key suffixes)"

function pad_numbers :: "int \<Rightarrow> jstring \<Rightarrow> nat \<Rightarrow> jstring" where
  \<comment> \<open>the \<open>while (key.length < minLength)\<close> loop of \<open>padKey\<close>\<close>
  "pad_numbers minLen key counter =
     (if int (length key) < minLen
      then pad_numbers minLen (numbered key counter) (counter + 1)
      else key)"
  by pat_completeness auto
termination
  by (relation "measure (\<lambda>(minLen, key, counter). nat (minLen - int (length key)))")
    (auto simp: numbered_def)

declare pad_numbers.simps [simp del]

definition padKey :: "KeyValidationRules \<Rightarrow> jstring \<Rightarrow> jstring" where
  "padKey r key =
     (if int (length key) \<ge> minLength r then key
      else
        (case pad_suffixes (minLength r) key [js ''key'', js ''text'', js ''label'', js ''msg''] of
           Some padded \<Rightarrow> padded
         | None \<Rightarrow> pad_numbers (minLength r) key 1))"


subsection \<open>The numbered alternatives of a key are pairwise different\<close>

lemma show_nat_not_Nil: "show_nat n \<noteq> []"
  by (subst show_nat.simps) simp

lemma show_nat_length_ge2: "10 \<le> n \<Longrightarrow> 2 \<le> length (show_nat n)"
proof -
  assume "10 \<le> n"
  then have "show_nat n = show_nat (n div 10) @ [48 + n mod 10]"
    by (subst show_nat.simps) simp
  moreover have "1 \<le> length (show_nat (n div 10))"
    using show_nat_not_Nil [of "n div 10"] by (cases "show_nat (n div 10)") auto
  ultimately show ?thesis by simp
qed

lemma show_nat_inj: "show_nat n = show_nat m \<Longrightarrow> n = m"
proof (induction n arbitrary: m rule: show_nat.induct)
  case (1 n)
  show ?case
  proof (cases "n < 10")
    case small_n: True
    show ?thesis
    proof (cases "m < 10")
      case True
      with small_n "1.prems" show ?thesis
        by (simp add: show_nat.simps [of n] show_nat.simps [of m])
    next
      case False
      then have "2 \<le> length (show_nat m)" by (simp add: show_nat_length_ge2)
      moreover have "length (show_nat n) = 1"
        using small_n by (simp add: show_nat.simps [of n])
      ultimately show ?thesis using "1.prems" by simp
    qed
  next
    case big_n: False
    show ?thesis
    proof (cases "m < 10")
      case True
      then have "length (show_nat m) = 1" by (simp add: show_nat.simps [of m])
      moreover have "2 \<le> length (show_nat n)"
        using big_n by (simp add: show_nat_length_ge2)
      ultimately show ?thesis using "1.prems" by simp
    next
      case False
      have n: "show_nat n = show_nat (n div 10) @ [48 + n mod 10]"
        using big_n by (subst show_nat.simps) simp
      have m: "show_nat m = show_nat (m div 10) @ [48 + m mod 10]"
        using False by (subst show_nat.simps) simp
      from n m "1.prems" have "show_nat (n div 10) = show_nat (m div 10)"
        and r: "n mod 10 = m mod 10" by simp_all
      with "1.IH" big_n have "n div 10 = m div 10" by simp
      with r show ?thesis by (metis div_mult_mod_eq)
    qed
  qed
qed

lemma numbered_inj: "numbered key n = numbered key m \<Longrightarrow> n = m"
  by (simp add: numbered_def show_nat_inj)

lemma numbered_not_Nil: "numbered key n \<noteq> []"
  by (simp add: numbered_def)

lemma finite_numbered_used: "finite {n. c \<le> n \<and> numbered key n \<in> set used}"
proof -
  have "inj (numbered key)" by (rule injI) (rule numbered_inj)
  then have "finite (numbered key -` set used)" by (simp add: finite_vimageI)
  moreover have "{n. c \<le> n \<and> numbered key n \<in> set used} \<subseteq> numbered key -` set used"
    by auto
  ultimately show ?thesis by (rule rev_finite_subset)
qed

lemma card_numbered_used_step:
  "card {n. c \<le> n \<and> numbered key n \<in> set used} =
     card {n. Suc c \<le> n \<and> numbered key n \<in> set used} +
     (if numbered key c \<in> set used then 1 else 0)"
proof (cases "numbered key c \<in> set used")
  case True
  then have "{n. c \<le> n \<and> numbered key n \<in> set used} =
      insert c {n. Suc c \<le> n \<and> numbered key n \<in> set used}"
    by (auto simp: Suc_le_eq le_less)
  moreover have "c \<notin> {n. Suc c \<le> n \<and> numbered key n \<in> set used}" by simp
  ultimately show ?thesis using True finite_numbered_used [of "Suc c" key used] by simp
next
  case False
  then have "{n. c \<le> n \<and> numbered key n \<in> set used} =
      {n. Suc c \<le> n \<and> numbered key n \<in> set used}"
    by (metis (no_types, lifting) Suc_leD Suc_leI le_neq_implies_less)
  with False show ?thesis by simp
qed

subsection \<open>Uniqueness against the used keys\<close>

function unique_loop :: "jstring list \<Rightarrow> jstring \<Rightarrow> jstring \<Rightarrow> nat \<Rightarrow> jstring" where
  \<comment> \<open>\<open>while (usedKeys.has(uniqueKey)) { uniqueKey = `${key}_${counter}`; counter++; }\<close>\<close>
  "unique_loop used key uniqueKey counter =
     (if uniqueKey \<in> set used
      then unique_loop used key (numbered key counter) (counter + 1)
      else uniqueKey)"
  by pat_completeness auto
termination
proof (relation "measure (\<lambda>(used, key, uniqueKey, counter).
    card {n. counter \<le> n \<and> numbered key n \<in> set used} +
    (if uniqueKey \<in> set used then 1 else 0))", goal_cases)
  case 1
  show ?case by simp
next
  case (2 used key uniqueKey counter)
  then show ?case
    using card_numbered_used_step [of counter key used] by simp
qed

declare unique_loop.simps [simp del]

function next_free :: "jstring list \<Rightarrow> jstring \<Rightarrow> nat \<Rightarrow> jstring" where
  \<comment> \<open>\<open>while (used(`${key}_${counter}`)) counter++\<close>, the loop of \<open>generateUniqueKey\<close> and
     of \<open>handleKeyDuplicate\<close>\<close>
  "next_free used key counter =
     (if numbered key counter \<in> set used
      then next_free used key (counter + 1)
      else numbered key counter)"
  by pat_completeness auto
termination
proof (relation "measure (\<lambda>(used, key, counter).
    card {n. counter \<le> n \<and> numbered key n \<in> set used})", goal_cases)
  case 1
  show ?case by simp
next
  case (2 used key counter)
  then show ?case
    using card_numbered_used_step [of counter key used] by simp
qed

declare next_free.simps [simp del]

definition validator_ensureUniqueness :: "KeyValidator \<Rightarrow> jstring \<Rightarrow> jstring" where
  "validator_ensureUniqueness v key = unique_loop (usedKeys v) key key 1"

definition generateUniqueKey :: "KeyValidator \<Rightarrow> jstring \<Rightarrow> jstring" where
  "generateUniqueKey v baseKey = next_free (usedKeys v) baseKey 1"

subsection \<open>validateKey and normalizeKey\<close>

text \<open>
  \<open>validateKey\<close> collects errors, warnings and suggestions. The messages are kept by
  their kind; \<open>isValid\<close> is decided by the errors alone.
\<close>

datatype key_error =
    Not_a_non_empty_string
  | Too_short
  | Too_long
  | Invalid_characters
  | Forbidden_pattern string
  | Reserved_word
  | Already_in_use

datatype key_warning =
    Should_start_with_prefix
  | Should_end_with_suffix
  | Very_short_key
  | Generic_key
  | Very_short_parts

record ValidationResult =
  isValid :: bool
  errors :: "key_error list"
  warnings :: "key_warning list"
  fix_suggestions :: "jstring list"

definition is_reserved :: "KeyValidationRules \<Rightarrow> jstring \<Rightarrow> bool" where
  \<comment> \<open>\<open>reservedWords.includes(caseSensitive ? key : key.toLowerCase())\<close>\<close>
  "is_reserved r key =
     ((if caseSensitive r then key else toLowerCase key) \<in> set (reservedWords r))"

definition lacks_prefix :: "KeyValidationRules \<Rightarrow> jstring \<Rightarrow> bool" where
  \<comment> \<open>\<open>requirePrefix && !key.startsWith(requirePrefix)\<close>: an absent or empty prefix is
     falsy\<close>
  "lacks_prefix r key =
     (case requirePrefix r of None \<Rightarrow> False | Some p \<Rightarrow> p \<noteq> [] \<and> \<not> startsWith key p)"

definition lacks_suffix :: "KeyValidationRules \<Rightarrow> jstring \<Rightarrow> bool" where
  "lacks_suffix r key =
     (case requireSuffix r of None \<Rightarrow> False | Some p \<Rightarrow> p \<noteq> [] \<and> \<not> endsWith key p)"

definition with_prefix :: "KeyValidationRules \<Rightarrow> jstring \<Rightarrow> jstring" where
  \<comment> \<open>the template \<open>`${requirePrefix}_${key}`\<close>\<close>
  "with_prefix r key = (case requirePrefix r of None \<Rightarrow> key | Some p \<Rightarrow> p @ [underscore] @ key)"

definition with_suffix :: "KeyValidationRules \<Rightarrow> jstring \<Rightarrow> jstring" where
  \<comment> \<open>the template \<open>`${key}_${requireSuffix}`\<close>\<close>
  "with_suffix r key = (case requireSuffix r of None \<Rightarrow> key | Some p \<Rightarrow> key @ [underscore] @ p)"

definition semantic_warnings :: "jstring \<Rightarrow> key_warning list" where
  \<comment> \<open>the warnings of \<open>addSemanticWarnings\<close>\<close>
  "semantic_warnings key =
     (if length key < 4 then [Very_short_key] else []) @
     (if list_ex (js_includes key) (map js [''text'', ''label'', ''msg'', ''str'', ''val''])
      then [Generic_key] else []) @
     (if underscore \<in> set key \<and> list_ex (\<lambda>part. length part \<le> 2) (split_on underscore key)
      then [Very_short_parts] else [])"

definition semantic_suggestions :: "jstring \<Rightarrow> jstring list" where
  \<comment> \<open>the suggestions of \<open>addSemanticWarnings\<close>; \<open>key.replace('btn_', 'button_')\<close> on a
     key that starts with \<open>btn_\<close> replaces that start\<close>
  "semantic_suggestions key =
     (if startsWith key (js ''btn_'') then [js ''button_'' @ drop 4 key] else []) @
     (if startsWith key (js ''txt_'') then [js ''text_'' @ drop 4 key] else []) @
     (if startsWith key (js ''lbl_'') then [js ''label_'' @ drop 4 key] else [])"

definition validateKey :: "KeyValidator \<Rightarrow> jstring \<Rightarrow> ValidationResult" where
  \<comment> \<open>\<open>[...new Set(suggestions)]\<close> keeps the first occurrence of each suggestion\<close>
  "validateKey v key =
     (if key = []
      then \<lparr>isValid = False, errors = [Not_a_non_empty_string], warnings = [],
            fix_suggestions = []\<rparr>
      else
        (let r = rules v;
             matched = filter (\<lambda>pattern. test pattern key) (forbiddenPatterns r);
             errs =
               (if int (length key) < minLength r then [Too_short] else []) @
               (if int (length key) > maxLength r then [Too_long] else []) @
               (if test (allowedCharacters r) key then [] else [Invalid_characters]) @
               map (\<lambda>pattern. Forbidden_pattern (source pattern)) matched @
               (if is_reserved r key then [Reserved_word] else []) @
               (if key \<in> set (usedKeys v) then [Already_in_use] else []);
             warns =
               (if lacks_prefix r key then [Should_start_with_prefix] else []) @
               (if lacks_suffix r key then [Should_end_with_suffix] else []) @
               semantic_warnings key;
             suggs =
               (if int (length key) > maxLength r then [validator_truncateKey r key] else []) @
               (if test (allowedCharacters r) key then [] else [sanitizeKey key]) @
               map (fixForbiddenPattern key) matched @
               (if is_reserved r key then [key @ js ''_key''] else []) @
               (if lacks_prefix r key then [with_prefix r key] else []) @
               (if lacks_suffix r key then [with_suffix r key] else []) @
               (if key \<in> set (usedKeys v) then [generateUniqueKey v key] else []) @
               semantic_suggestions key
         in \<lparr>isValid = (errs = []), errors = errs, warnings = warns,
              fix_suggestions = foldl set_add [] suggs\<rparr>))"

definition fix_patterns :: "KeyValidationRules \<Rightarrow> jstring \<Rightarrow> jstring" where
  \<comment> \<open>the loop of \<open>normalizeKey\<close> over the forbidden patterns, each tested on what the
     earlier fixes left\<close>
  "fix_patterns r key =
     foldl (\<lambda>normalized pattern.
              if test pattern normalized then fixForbiddenPattern normalized pattern
              else normalized)
       key (forbiddenPatterns r)"

definition normalizeKey :: "KeyValidator \<Rightarrow> jstring \<Rightarrow> jstring \<times> KeyValidator" where
  \<comment> \<open>the key returned, and the validator as the call leaves it\<close>
  "normalizeKey v key =
     (if key = [] then (js ''invalid_key'', v)
      else
        (let r = rules v;
             n1 = toLowerCase key;
             n2 = sanitizeKey n1;
             n3 = fix_patterns r n2;
             n4 = (if int (length n3) > maxLength r then validator_truncateKey r n3 else n3);
             n5 = (if int (length n4) < minLength r then padKey r n4 else n4);
             n6 = (if is_reserved r n5 then n5 @ js ''_key'' else n5);
             n7 = (if lacks_prefix r n6 then with_prefix r n6 else n6);
             n8 = (if lacks_suffix r n7 then with_suffix r n7 else n7)
         in (validator_ensureUniqueness v n8, v)))"


section \<open>KeyGenerator\<close>

text \<open>
  The transliteration table, in the order of the object literal (no key occurs twice):
  the letters first, then the words and phrases. Each Persian key is written by its code
  units.
\<close>

definition TRANSLITERATION_MAP :: "(jstring \<times> jstring) list" where
  "TRANSLITERATION_MAP = [
   ([1575], js ''a''),
   ([1570], js ''aa''),
   ([1576], js ''b''),
   ([1662], js ''p''),
   ([1578], js ''t''),
   ([1579], js ''s''),
   ([1580], js ''j''),
   ([1670], js ''ch''),
   ([1581], js ''h''),
   ([1582], js ''kh''),
   ([1583], js ''d''),
   ([1584], js ''z''),
   ([1585], js ''r''),
   ([1586], js ''z''),
   ([1688], js ''zh''),
   ([1587], js ''s''),
   ([1588], js ''sh''),
   ([1589], js ''s''),
   ([1590], js ''z''),
   ([1591], js ''t''),
   ([1592], js ''z''),
   ([1593], js ''a''),
   ([1594], js ''gh''),
   ([1601], js ''f''),
   ([1602], js ''gh''),
   ([1705], js ''k''),
   ([1711], js ''g''),
   ([1604], js ''l''),
   ([1605], js ''m''),
   ([1606], js ''n''),
   ([1608], js ''v''),
   ([1607], js ''h''),
   ([1740], js ''i''),
   ([1569], js ''''),
   ([1574], js ''y''),
   ([1572], js ''v''),
   ([1603], js ''k''),
   ([1610], js ''y''),
   ([1577], js ''h''),
   ([1587, 1604, 1575, 1605], js ''hello''),
   ([1582, 1608, 1588, 32, 1570, 1605, 1583, 1740, 1583], js ''welcome''),
   ([1608, 1585, 1608, 1583], js ''login''),
   ([1582, 1585, 1608, 1580], js ''logout''),
   ([1579, 1576, 1578, 32, 1606, 1575, 1605], js ''register''),
   ([1585, 1605, 1586, 32, 1593, 1576, 1608, 1585], js ''password''),
   ([1606, 1575, 1605, 32, 1705, 1575, 1585, 1576, 1585, 1740], js ''username''),
   ([1578, 1575, 1740, 1740, 1583], js ''confirm''),
   ([1604, 1594, 1608], js ''cancel''),
   ([1584, 1582, 1740, 1585, 1607], js ''save''),
   ([1581, 1584, 1601], js ''delete''),
   ([1608, 1740, 1585, 1575, 1740, 1588], js ''edit''),
   ([1580, 1583, 1740, 1583], js ''new''),
   ([1602, 1583, 1740, 1605, 1740], js ''old''),
   ([1576, 1593, 1583, 1740], js ''next''),
   ([1602, 1576, 1604, 1740], js ''previous''),
   ([1589, 1601, 1581, 1607], js ''page''),
   ([1601, 1607, 1585, 1587, 1578], js ''list''),
   ([1580, 1587, 1578, 1580, 1608], js ''search''),
   ([1601, 1740, 1604, 1578, 1585], js ''filter''),
   ([1578, 1606, 1592, 1740, 1605, 1575, 1578], js ''settings''),
   ([1662, 1585, 1608, 1601, 1575, 1740, 1604], js ''profile''),
   ([1581, 1587, 1575, 1576, 32, 1705, 1575, 1585, 1576, 1585, 1740], js ''account''),
   ([1575, 1591, 1604, 1575, 1593, 1575, 1578], js ''information''),
   ([1580, 1586, 1574, 1740, 1575, 1578], js ''details''),
   ([1578, 1608, 1590, 1740, 1581, 1575, 1578], js ''description''),
   ([1606, 1575, 1605], js ''name''),
   ([1606, 1575, 1605, 32, 1582, 1575, 1606, 1608, 1575, 1583, 1711, 1740], js ''lastname''),
   ([1575, 1740, 1605, 1740, 1604], js ''email''),
   ([1578, 1604, 1601, 1606], js ''phone''),
   ([1570, 1583, 1585, 1587], js ''address''),
   ([1588, 1607, 1585], js ''city''),
   ([1705, 1588, 1608, 1585], js ''country''),
   ([1578, 1575, 1585, 1740, 1582], js ''date''),
   ([1586, 1605, 1575, 1606], js ''time''),
   ([1587, 1575, 1593, 1578], js ''hour''),
   ([1583, 1602, 1740, 1602, 1607], js ''minute''),
   ([1585, 1608, 1586], js ''day''),
   ([1605, 1575, 1607], js ''month''),
   ([1587, 1575, 1604], js ''year''),
   ([1575, 1605, 1585, 1608, 1586], js ''today''),
   ([1583, 1740, 1585, 1608, 1586], js ''yesterday''),
   ([1601, 1585, 1583, 1575], js ''tomorrow''),
   ([1582, 1591, 1575], js ''error''),
   ([1605, 1608, 1601, 1602, 1740, 1578], js ''success''),
   ([1607, 1588, 1583, 1575, 1585], js ''warning''),
   ([1575, 1591, 1604, 1575, 1593], js ''info''),
   ([1576, 1604, 1607], js ''yes''),
   ([1582, 1740, 1585], js ''no''),
   ([1576, 1575, 1588, 1607], js ''ok''),
   ([1576, 1575, 1591, 1604], js ''cancel'')
   ]"

record KeyGenerationOptions =
  maxLength_opt :: int
  useContext :: bool
  prefix_opt :: "jstring option"

record KeyGenerator =
  options :: KeyGenerationOptions
  usedKeys_gen :: "jstring list"

definition new_KeyGenerator :: "KeyGenerationOptions \<Rightarrow> KeyGenerator" where
  "new_KeyGenerator opts = \<lparr>options = opts, usedKeys_gen = []\<rparr>"

definition truthy :: "jstring option \<Rightarrow> bool" where
  \<comment> \<open>an optional string in a condition: \<open>undefined\<close> and the empty string are falsy\<close>
  "truthy x = (case x of None \<Rightarrow> False | Some s \<Rightarrow> s \<noteq> [])"

definition to_ascii_digit :: "nat \<Rightarrow> nat \<Rightarrow> nat" where
  \<comment> \<open>a digit of the block starting at \<open>zero\<close> becomes the ASCII digit\<close>
  "to_ascii_digit zero c = (if zero \<le> c \<and> c \<le> zero + 9 then c - zero + 48 else c)"

definition normalizeText :: "jstring \<Rightarrow> jstring" where
  \<comment> \<open>trim; \<open>/\s+/g\<close> to one space; Persian digits (from U+06F0) and Arabic digits (from
     U+0660) to ASCII; then only Arabic-script units, white space and \<open>\w\<close> are kept\<close>
  "normalizeText text =
     filter (\<lambda>c. is_arabic c \<or> is_space c \<or> is_word c)
       (map (to_ascii_digit 1632)
         (map (to_ascii_digit 1776)
           (squeeze is_space space (trim text))))"

function replace_all :: "jstring \<Rightarrow> jstring \<Rightarrow> jstring \<Rightarrow> jstring" where
  \<comment> \<open>\<open>s.replace(new RegExp(p, 'g'), r)\<close> for a pattern without special characters: the
     occurrences of \<open>p\<close>, found from left to right without overlap. The table has no empty
     pattern.\<close>
  "replace_all p r [] = []"
| "replace_all p r (c # cs) =
     (if p \<noteq> [] \<and> startsWith (c # cs) p
      then r @ replace_all p r (drop (length p) (c # cs))
      else c # replace_all p r cs)"
  by pat_completeness auto
termination
  by (relation "measure (\<lambda>(p, r, s). length s)") auto

fun whole_match :: "jstring \<Rightarrow> (jstring \<times> jstring) list \<Rightarrow> jstring option" where
  \<comment> \<open>the first loop of \<open>transliterateText\<close>: the first entry equal to the whole text\<close>
  "whole_match lowerText [] = None"
| "whole_match lowerText ((persian, english) # entries) =
     (if lowerText = toLowerCase persian then Some english
      else whole_match lowerText entries)"

definition transliterate_char :: "nat \<Rightarrow> jstring" where
  \<comment> \<open>\<open>TRANSLITERATION_MAP[char] || char\<close>: an entry that maps to the empty string is
     falsy, so the unit itself is kept\<close>
  "transliterate_char c =
     (case map_of TRANSLITERATION_MAP [c] of
        None \<Rightarrow> [c]
      | Some english \<Rightarrow> if english \<noteq> [] then english else [c])"

definition transliterateText :: "jstring \<Rightarrow> jstring" where
  "transliterateText text =
     (case whole_match (toLowerCase text) TRANSLITERATION_MAP of
        Some english \<Rightarrow> english
      | None \<Rightarrow>
          (let result =
                 foldl (\<lambda>result (persian, english).
                          if length persian > 1 then replace_all persian english result
                          else result)
                   text TRANSLITERATION_MAP
           in concat (map transliterate_char result)))"

fun generator_truncate_loop :: "int \<Rightarrow> jstring \<Rightarrow> jstring list \<Rightarrow> jstring" where
  \<comment> \<open>the \<open>for (const part of parts)\<close> loop of \<open>KeyGenerator.truncateKey\<close>, \<open>result\<close>
     being the accumulator; the \<open>else\<close> branch ends the loop\<close>
  "generator_truncate_loop maxLen result [] = result"
| "generator_truncate_loop maxLen result (part # parts) =
     (if int (length result) + int (length part) + 1 \<le> maxLen
      then generator_truncate_loop maxLen
             (result @ (if result \<noteq> [] then [underscore] else []) @ part) parts
      else
        (let abbreviated = substring0 part (max 1 (maxLen - int (length result) - 1))
         in if length abbreviated > 0
            then result @ (if result \<noteq> [] then [underscore] else []) @ abbreviated
            else result))"

definition generator_truncateKey :: "KeyGenerationOptions \<Rightarrow> jstring \<Rightarrow> jstring" where
  "generator_truncateKey opts k =
     (if int (length k) \<le> maxLength_opt opts then k
      else
        (let parts = split_on underscore k
         in if length parts = 1 then substring0 k (maxLength_opt opts)
            else
              (let result = generator_truncate_loop (maxLength_opt opts) [] parts
               in if result \<noteq> [] then result else substring0 k (maxLength_opt opts))))"

definition createSemanticKey :: "KeyGenerationOptions \<Rightarrow> jstring \<Rightarrow> jstring option \<Rightarrow> jstring" where
  "createSemanticKey opts transliteratedText context =
     (let k0 = strip_one_underscore
                 (collapse_underscores
                   (squeeze is_space underscore
                     (filter (\<lambda>c. is_lower c \<or> is_digit c \<or> is_space c)
                       (toLowerCase transliteratedText))));
          k1 = (if useContext opts \<and> truthy context
                then (let contextKey = filter (\<lambda>c. is_lower c \<or> is_digit c)
                                         (toLowerCase (the context))
                      in if contextKey \<noteq> [] then contextKey @ [underscore] @ k0 else k0)
                else k0);
          k2 = (if truthy (prefix_opt opts) then the (prefix_opt opts) @ [underscore] @ k1
                else k1);
          k3 = (if k2 = [] then js ''untranslated_text'' else k2)
      in if int (length k3) > maxLength_opt opts then generator_truncateKey opts k3 else k3)"

definition generator_ensureUniqueness :: "KeyGenerator \<Rightarrow> jstring \<Rightarrow> jstring \<times> KeyGenerator" where
  \<comment> \<open>unlike the validator's, the generator's method records the key it returns\<close>
  "generator_ensureUniqueness g k =
     (let uniqueKey = unique_loop (usedKeys_gen g) k k 1
      in (uniqueKey, g\<lparr>usedKeys_gen := set_add (usedKeys_gen g) uniqueKey\<rparr>))"

fun confidence_table_loop :: "jstring \<Rightarrow> jstring list \<Rightarrow> real \<Rightarrow> real" where
  \<comment> \<open>the loop of \<open>calculateConfidence\<close> over the keys of the table, left by \<open>break\<close> at
     the first hit\<close>
  "confidence_table_loop lowerOriginal [] c = c"
| "confidence_table_loop lowerOriginal (persian # keys) c =
     (if length persian > 1 \<and> js_includes lowerOriginal (toLowerCase persian)
      then c + 0.3
      else confidence_table_loop lowerOriginal keys c)"

definition calculateConfidence :: "jstring \<Rightarrow> jstring \<Rightarrow> real" where
  \<comment> \<open>the arithmetic is that of the real numbers; the source computes in binary floating
     point\<close>
  "calculateConfidence originalText generatedKey =
     (let c0 = 0.5;
          c1 = confidence_table_loop (toLowerCase originalText) (map fst TRANSLITERATION_MAP) c0;
          c2 = (if underscore \<in> set generatedKey \<and> length generatedKey > 3 then c1 + 0.1 else c1);
          c3 = (if length generatedKey < 3 \<or> generatedKey = js ''untranslated_text''
                then c2 - 0.2 else c2)
      in max 0 (min 1 c3))"

definition contains_table_word :: "jstring \<Rightarrow> bool" where
  \<comment> \<open>what the loop of \<open>calculateConfidence\<close> looks for: some entry of the table, longer
     than one unit, occurs in the lower-cased text\<close>
  "contains_table_word originalText =
     list_ex (\<lambda>persian. length persian > 1 \<and>
                         js_includes (toLowerCase originalText) (toLowerCase persian))
       (map fst TRANSLITERATION_MAP)"

definition spec_exact_table_match :: "jstring \<Rightarrow> bool" where
  \<comment> \<open>the specification's wording: the text, as a whole, is an entry of the table that is
     longer than one unit\<close>
  "spec_exact_table_match originalText =
     list_ex (\<lambda>persian. length persian > 1 \<and> toLowerCase originalText = toLowerCase persian)
       (map fst TRANSLITERATION_MAP)"

definition spec_confidence :: "jstring \<Rightarrow> jstring \<Rightarrow> real" where
  \<comment> \<open>the score as the specification words it\<close>
  "spec_confidence originalText generatedKey =
     max 0 (min 1
       (0.5 + (if spec_exact_table_match originalText then 0.3 else 0)
            + (if underscore \<in> set generatedKey \<and> length generatedKey > 3 then 0.1 else 0)
            - (if length generatedKey < 3 \<or> generatedKey = js ''untranslated_text''
               then 0.2 else 0)))"

function split_spaces :: "jstring \<Rightarrow> jstring list" where
  \<comment> \<open>\<open>s.split(/\s+/)\<close>: a run of white space separates two parts, also an empty one at
     either end\<close>
  "split_spaces s =
     (let word = takeWhile (\<lambda>c. \<not> is_space c) s;
          rest = dropWhile (\<lambda>c. \<not> is_space c) s
      in if rest = [] then [word] else word # split_spaces (dropWhile is_space rest))"
  by pat_completeness auto
termination
proof (relation "measure length", goal_cases)
  case 1
  show ?case by simp
next
  case (2 s word rest)
  then obtain c cs where rest: "dropWhile (\<lambda>c. \<not> is_space c) s = c # cs"
    by (cases "dropWhile (\<lambda>c. \<not> is_space c) s") auto
  then have "is_space c" by (metis hd_dropWhile list.distinct(1) list.sel(1))
  then have "length (dropWhile is_space (c # cs)) \<le> length cs"
    by (simp add: length_dropWhile_le)
  moreover have "length (c # cs) \<le> length s"
    using rest length_dropWhile_le [of "\<lambda>c. \<not> is_space c" s] by simp
  ultimately show ?case using 2 rest by simp
qed

declare split_spaces.simps [simp del]

fun join_underscore :: "jstring list \<Rightarrow> jstring" where
  \<comment> \<open>\<open>parts.join('_')\<close>\<close>
  "join_underscore [] = []"
| "join_underscore [p] = p"
| "join_underscore (p # q # ps) = p @ [underscore] @ join_underscore (q # ps)"

definition generateAlternatives :: "jstring \<Rightarrow> jstring option \<Rightarrow> jstring list" where
  "generateAlternatives text context =
     (let normalizedText = normalizeText text;
          simpleTransliteration =
            strip_one_underscore
              (collapse_underscores
                (map (\<lambda>c. if is_lower c \<or> is_digit c then c else underscore)
                  (toLowerCase (transliterateText normalizedText))));
          a1 = (if simpleTransliteration \<noteq> [] then [simpleTransliteration] else []);
          a2 = (if truthy context
                then [toLowerCase (the context) @ [underscore] @ simpleTransliteration] else []);
          words = split_spaces normalizedText;
          abbreviated = join_underscore (map (\<lambda>w. take 1 (transliterateText w)) words);
          a3 = (if length words > 1 \<and> length abbreviated > 1 then [abbreviated] else [])
      in take 3 (a1 @ a2 @ a3))"

record GeneratedKey =
  key :: jstring
  originalText :: jstring
  confidence :: real
  suggestions :: "jstring list"

definition generateKey :: "KeyGenerator \<Rightarrow> jstring \<Rightarrow> jstring option \<Rightarrow> GeneratedKey \<times> KeyGenerator" where
  "generateKey g text context =
     (let normalizedText = normalizeText text;
          transliteratedText = transliterateText normalizedText;
          semanticKey = createSemanticKey (options g) transliteratedText context;
          (finalKey, g') = generator_ensureUniqueness g semanticKey
      in (\<lparr>key = finalKey, originalText = text,
           confidence = calculateConfidence text finalKey,
           suggestions = generateAlternatives text context\<rparr>, g'))"


section \<open>DuplicateDetector\<close>

text \<open>
  The detector keeps two \<open>Map\<close>s per locale. A \<open>Map\<close> is the list of its entries in
  insertion order. The lists of similar keys that the checks also return (suggestions found
  by edit distance) are left out of the results: no decision of the key manager reads them.
\<close>

type_synonym store = "(jstring \<times> jstring) list"

record DuplicateDetector =
  translationData :: "(jstring \<times> store) list"
  valueToKeys :: "(jstring \<times> (jstring \<times> jstring list) list) list"

record DuplicateCheckResult =
  isDuplicate :: bool
  existingKey :: "jstring option"

fun map_set :: "('k \<times> 'v) list \<Rightarrow> 'k \<Rightarrow> 'v \<Rightarrow> ('k \<times> 'v) list" where
  \<comment> \<open>\<open>Map.prototype.set\<close>, and the assignment \<open>obj[k] = v\<close> to an object: a present key
     keeps its place, a new one goes last\<close>
  "map_set [] k v = [(k, v)]"
| "map_set ((k', v') # m) k v = (if k' = k then (k, v) # m else (k', v') # map_set m k v)"

definition new_DuplicateDetector :: DuplicateDetector where
  "new_DuplicateDetector = \<lparr>translationData = [], valueToKeys = []\<rparr>"

definition normalizeValue :: "jstring \<Rightarrow> jstring" where
  \<comment> \<open>trim, lower case, \<open>/\s+/g\<close> to one space, then only Arabic-script units, white space
     and \<open>\w\<close> are kept\<close>
  "normalizeValue v =
     filter (\<lambda>c. is_arabic c \<or> is_space c \<or> is_word c)
       (squeeze is_space space (toLowerCase (trim v)))"

definition push_key :: "(jstring \<times> jstring list) list \<Rightarrow> jstring \<Rightarrow> jstring \<Rightarrow> (jstring \<times> jstring list) list" where
  \<comment> \<open>\<open>if (!valueMap.has(nv)) valueMap.set(nv, []); valueMap.get(nv).push(k)\<close>\<close>
  "push_key valueMap nv k =
     (case map_of valueMap nv of
        None \<Rightarrow> map_set valueMap nv [k]
      | Some ks \<Rightarrow> map_set valueMap nv (ks @ [k]))"

definition loadTranslationData :: "DuplicateDetector \<Rightarrow> (jstring \<times> store) list \<Rightarrow> DuplicateDetector" where
  "loadTranslationData d td =
     foldl (\<lambda>d (locale, trs).
              \<lparr>translationData =
                 map_set (translationData d) locale
                   (foldl (\<lambda>localeMap (k, v). map_set localeMap k v) [] trs),
               valueToKeys =
                 map_set (valueToKeys d) locale
                   (foldl (\<lambda>valueMap (k, v). push_key valueMap (normalizeValue v) k) [] trs)\<rparr>)
       new_DuplicateDetector td"

definition checkKeyDuplicate :: "DuplicateDetector \<Rightarrow> jstring \<Rightarrow> jstring option \<Rightarrow> DuplicateCheckResult" where
  \<comment> \<open>with a locale, that locale alone is searched; without one, all of them\<close>
  "checkKeyDuplicate d k locale =
     (let locales = (if truthy locale then [the locale] else map fst (translationData d))
      in if list_ex (\<lambda>loc. case map_of (translationData d) loc of
                               None \<Rightarrow> False
                             | Some localeData \<Rightarrow> k \<in> fst ` set localeData) locales
         then \<lparr>isDuplicate = True, existingKey = Some k\<rparr>
         else \<lparr>isDuplicate = False, existingKey = None\<rparr>)"

definition checkValueDuplicate :: "DuplicateDetector \<Rightarrow> jstring \<Rightarrow> jstring \<Rightarrow> DuplicateCheckResult" where
  \<comment> \<open>\<open>existingKeys[0]\<close> of a list that \<open>push_key\<close> never leaves empty\<close>
  "checkValueDuplicate d v locale =
     (case map_of (valueToKeys d) locale of
        None \<Rightarrow> \<lparr>isDuplicate = False, existingKey = None\<rparr>
      | Some valueMap \<Rightarrow>
          (case map_of valueMap (normalizeValue v) of
             None \<Rightarrow> \<lparr>isDuplicate = False, existingKey = None\<rparr>
           | Some existingKeys \<Rightarrow>
               \<lparr>isDuplicate = True,
                existingKey = (case existingKeys of [] \<Rightarrow> None | k # ks \<Rightarrow> Some k)\<rparr>))"

definition generateContextualSuffix :: "jstring \<Rightarrow> jstring \<Rightarrow> jstring" where
  "generateContextualSuffix baseKey context =
     (let contextSuffix =
            strip_one_underscore
              (collapse_underscores
                (map (\<lambda>c. if is_lower c \<or> is_digit c then c else underscore)
                  (toLowerCase context)))
      in if contextSuffix \<noteq> [] then baseKey @ [underscore] @ contextSuffix
         else baseKey @ js ''_alt'')"

section \<open>KeyManager\<close>

record KeyManager =
  keyGenerator :: KeyGenerator
  duplicateDetector :: DuplicateDetector
  keyValidator :: KeyValidator

record ProcessedKey =
  generatedKey :: GeneratedKey
  validation :: ValidationResult
  duplicateCheck :: DuplicateCheckResult
  finalKey :: jstring

record TextMatch =
  match_text :: jstring
  match_filePath :: jstring
  match_context :: "jstring option"

definition new_KeyManager :: "KeyGenerationOptions \<Rightarrow> KeyValidationRules \<Rightarrow> KeyManager" where
  "new_KeyManager generationOptions validationRules =
     \<lparr>keyGenerator = new_KeyGenerator generationOptions,
      duplicateDetector = new_DuplicateDetector,
      keyValidator = new_KeyValidator validationRules\<rparr>"

definition handleKeyDuplicate :: "KeyManager \<Rightarrow> jstring \<Rightarrow> jstring option \<Rightarrow> jstring" where
  "handleKeyDuplicate km k context =
     (if truthy context \<and>
         \<not> isKeyUsed (keyValidator km) (generateContextualSuffix k (the context))
      then generateContextualSuffix k (the context)
      else next_free (usedKeys (keyValidator km)) k 1)"

definition processTextForKey :: "KeyManager \<Rightarrow> jstring \<Rightarrow> jstring \<Rightarrow> jstring option \<Rightarrow> ProcessedKey \<times> KeyManager" where
  "processTextForKey km text locale context =
     (let (gk, g') = generateKey (keyGenerator km) text context;
          val = validateKey (keyValidator km) (key gk);
          (k1, v1) = (if \<not> isValid val then normalizeKey (keyValidator km) (key gk)
                      else (key gk, keyValidator km));
          km1 = km\<lparr>keyGenerator := g', keyValidator := v1\<rparr>;
          keyDuplicateCheck = checkKeyDuplicate (duplicateDetector km1) k1 (Some locale);
          valueDuplicateCheck = checkValueDuplicate (duplicateDetector km1) text locale;
          k2 = (if isDuplicate keyDuplicateCheck then handleKeyDuplicate km1 k1 context else k1);
          km2 = km1\<lparr>keyValidator := markKeyAsUsed (keyValidator km1) k2\<rparr>
      in (\<lparr>generatedKey = gk\<lparr>key := k2\<rparr>,
           validation = val,
           duplicateCheck =
             \<lparr>isDuplicate = (isDuplicate keyDuplicateCheck \<or> isDuplicate valueDuplicateCheck),
              existingKey = (if truthy (existingKey keyDuplicateCheck)
                             then existingKey keyDuplicateCheck
                             else existingKey valueDuplicateCheck)\<rparr>,
           finalKey = k2\<rparr>, km2))"

text \<open>
  \<open>generateKeys\<close> wraps each item in \<open>try\<close>/\<open>catch\<close>. Nothing in
  \<open>processTextForKey\<close> throws on a string, so the fallback of the \<open>catch\<close> is never taken
  and the loop pushes one result per match.
\<close>

fun generateKeys_loop :: "KeyManager \<Rightarrow> GeneratedKey list \<Rightarrow> TextMatch list \<Rightarrow> GeneratedKey list \<times> KeyManager" where
  "generateKeys_loop km results [] = (results, km)"
| "generateKeys_loop km results (m # ms) =
     (let (r, km') = processTextForKey km (match_text m) (js ''en'') (match_context m)
      in generateKeys_loop km'
           (results @ [\<lparr>key = finalKey r, originalText = match_text m,
                        confidence = confidence (generatedKey r),
                        suggestions = suggestions (generatedKey r)\<rparr>]) ms)"

definition generateKeys :: "KeyManager \<Rightarrow> TextMatch list \<Rightarrow> GeneratedKey list \<times> KeyManager" where
  "generateKeys km matches = generateKeys_loop km [] matches"


section \<open>JSONManager\<close>

text \<open>
  Errors are values. A failed call of the \<open>fs\<close> module throws a system error, which
  carries a \<open>code\<close>; \<open>JSON.parse\<close> throws a \<open>SyntaxError\<close>, which has none; the
  managers throw plain \<open>Error\<close>s with a message.
\<close>

datatype js_error =
    SystemError string string
  | SyntaxError string
  | Error string

fun error_code :: "js_error \<Rightarrow> string option" where
  "error_code (SystemError c m) = Some c"
| "error_code (SyntaxError m) = None"
| "error_code (Error m) = None"

fun error_message :: "js_error \<Rightarrow> string" where
  "error_message (SystemError c m) = m"
| "error_message (SyntaxError m) = m"
| "error_message (Error m) = m"

text \<open>
  A locale file holds JSON text. The text either denotes a flat record of strings, kept
  here as the list of its entries in the order \<open>Object.entries\<close> gives them, or it does
  not parse, and \<open>JSON.parse\<close> throws with a message. A path may also name something
  that cannot be read (a directory, a file without permission): \<open>readFile\<close> then fails
  with that code. A path without a node fails with \<open>ENOENT\<close>.
\<close>

datatype file_content = Json_record store | Malformed string

datatype node = File file_content | Unreadable string

type_synonym file_system = "jstring \<Rightarrow> node option"

record I18nIntegrationConfig =
  locales_source :: jstring
  locales_target :: jstring
  translationFiles_directory :: jstring
  createBackups :: bool

definition readFile :: "file_system \<Rightarrow> jstring \<Rightarrow> js_error + file_content" where
  "readFile fs path =
     (case fs path of
        None \<Rightarrow> Inl (SystemError ''ENOENT'' ''no such file or directory'')
      | Some (Unreadable c) \<Rightarrow> Inl (SystemError c ''the file cannot be read'')
      | Some (File content) \<Rightarrow> Inr content)"

definition JSON_parse :: "file_content \<Rightarrow> js_error + store" where
  "JSON_parse content =
     (case content of
        Json_record r \<Rightarrow> Inr r
      | Malformed m \<Rightarrow> Inl (SyntaxError m))"

definition getTranslationFilePath :: "I18nIntegrationConfig \<Rightarrow> jstring \<Rightarrow> jstring" where
  \<comment> \<open>\<open>path.join(directory, `${locale}.json`)\<close>, for a locale that is a plain file name\<close>
  "getTranslationFilePath config locale =
     translationFiles_directory config @ js ''/'' @ locale @ js ''.json''"

definition readTranslationFile :: "I18nIntegrationConfig \<Rightarrow> file_system \<Rightarrow> jstring \<Rightarrow> js_error + store" where
  \<comment> \<open>the \<open>try\<close> block reads and parses; the \<open>catch\<close> block turns \<open>ENOENT\<close> into
     the empty record and rethrows everything else\<close>
  "readTranslationFile config fs locale =
     (let filePath = getTranslationFilePath config locale;
          attempt = (case readFile fs filePath of
                       Inl e \<Rightarrow> Inl e
                     | Inr content \<Rightarrow> JSON_parse content)
      in case attempt of
           Inr parsed \<Rightarrow> Inr parsed
         | Inl e \<Rightarrow>
             if error_code e = Some ''ENOENT'' then Inr []
             else Inl (Error (''Failed to read translation file: '' @ error_message e)))"

definition sortTranslations :: "store \<Rightarrow> store" where
  \<comment> \<open>\<open>Object.keys(translations).sort()\<close> orders strings by their code units; the sorted
     record is filled key by key\<close>
  "sortTranslations t =
     foldl (\<lambda>sorted k. case map_of t k of None \<Rightarrow> sorted | Some v \<Rightarrow> map_set sorted k v)
       [] (sort (map fst t))"

definition writeTranslationFile :: "I18nIntegrationConfig \<Rightarrow> file_system \<Rightarrow> jstring \<Rightarrow> store \<Rightarrow> file_system" where
  \<comment> \<open>the file system after the write; the directory is created when it is missing, and a
     write on a healthy disk does not fail\<close>
  "writeTranslationFile config fs locale t =
     fs(getTranslationFilePath config locale \<mapsto> File (Json_record (sortTranslations t)))"

section \<open>DuplicateValueDetector\<close>

record DuplicateValue =
  dup_value :: jstring
  dup_keys :: "jstring list"
  dup_locales :: "jstring list"

datatype action = Consolidate | Keep_separate | Rename

record ConsolidationDecision =
  decision_action :: action
  targetKey :: "jstring option"
  newKey :: "jstring option"

record DuplicateValueReport =
  totalDuplicates :: nat
  duplicatesByLocale :: "(jstring \<times> DuplicateValue list) list"
  report_suggestions :: "jstring list"

definition property_name :: "jstring option \<Rightarrow> jstring" where
  \<comment> \<open>an optional key used as a property name (\<open>decision.targetKey!\<close>): \<open>undefined\<close>
     names the property \<open>undefined\<close>\<close>
  "property_name k = (case k of None \<Rightarrow> js ''undefined'' | Some name \<Rightarrow> name)"

definition delete_key :: "store \<Rightarrow> jstring \<Rightarrow> store" where
  \<comment> \<open>\<open>delete translations[k]\<close>\<close>
  "delete_key t k = filter (\<lambda>(k', v). k' \<noteq> k) t"

definition findDuplicatesInLocale :: "I18nIntegrationConfig \<Rightarrow> file_system \<Rightarrow> jstring \<Rightarrow> DuplicateValue list" where
  \<comment> \<open>the keys are grouped by the value as it stands in the file; a file that cannot be
     read gives no group (the error is logged)\<close>
  "findDuplicatesInLocale config fs locale =
     (case readTranslationFile config fs locale of
        Inl e \<Rightarrow> []
      | Inr t \<Rightarrow>
          (let valueMap = foldl (\<lambda>valueMap (k, v). push_key valueMap v k) [] t
           in map (\<lambda>(v, ks). \<lparr>dup_value = v, dup_keys = ks, dup_locales = [locale]\<rparr>)
                (filter (\<lambda>(v, ks). length ks > 1) valueMap)))"

definition scan_locale :: "I18nIntegrationConfig \<Rightarrow> file_system \<Rightarrow> DuplicateValueReport \<Rightarrow> jstring \<Rightarrow> DuplicateValueReport" where
  \<comment> \<open>the body of the loop of \<open>scanForDuplicateValues\<close> over the two locales\<close>
  "scan_locale config fs report locale =
     (let duplicates = findDuplicatesInLocale config fs locale
      in if length duplicates > 0
         then \<lparr>totalDuplicates = totalDuplicates report + length duplicates,
               duplicatesByLocale = map_set (duplicatesByLocale report) locale duplicates,
               report_suggestions = report_suggestions report @
                 [js ''Found '' @ show_nat (length duplicates) @ js '' duplicate values in '' @
                  locale @ js '' locale'']\<rparr>
         else report)"

definition scanForDuplicateValues :: "I18nIntegrationConfig \<Rightarrow> file_system \<Rightarrow> DuplicateValueReport" where
  "scanForDuplicateValues config fs =
     (let report = foldl (scan_locale config fs)
                     \<lparr>totalDuplicates = 0, duplicatesByLocale = [], report_suggestions = []\<rparr>
                     [locales_source config, locales_target config]
      in if totalDuplicates report > 0
         then report\<lparr>report_suggestions := report_suggestions report @
                [js ''Consider consolidating duplicate translations to reduce file size and improve maintainability'']\<rparr>
         else report)"

definition performConsolidation :: "I18nIntegrationConfig \<Rightarrow> file_system \<Rightarrow> jstring \<Rightarrow> store \<Rightarrow> DuplicateValue \<Rightarrow> jstring \<Rightarrow> file_system" where
  "performConsolidation config fs locale t duplicateValue target =
     writeTranslationFile config fs locale
       (foldl (\<lambda>t k. if k \<noteq> target then delete_key t k else t)
          (map_set t target (dup_value duplicateValue))
          (dup_keys duplicateValue))"

definition performRename :: "I18nIntegrationConfig \<Rightarrow> file_system \<Rightarrow> jstring \<Rightarrow> store \<Rightarrow> DuplicateValue \<Rightarrow> jstring \<Rightarrow> file_system" where
  "performRename config fs locale t duplicateValue new =
     writeTranslationFile config fs locale
       (foldl delete_key
          (map_set t new (dup_value duplicateValue))
          (dup_keys duplicateValue))"

definition consolidateDuplicates :: "I18nIntegrationConfig \<Rightarrow> file_system \<Rightarrow> jstring \<Rightarrow> DuplicateValue \<Rightarrow> ConsolidationDecision \<Rightarrow> js_error + file_system" where
  \<comment> \<open>the file system after the call, or the error rethrown by the \<open>catch\<close> block\<close>
  "consolidateDuplicates config fs locale duplicateValue decision =
     (case readTranslationFile config fs locale of
        Inl e \<Rightarrow> Inl (Error (''Failed to consolidate duplicates: '' @ error_message e))
      | Inr t \<Rightarrow>
          (case decision_action decision of
             Consolidate \<Rightarrow>
               Inr (performConsolidation config fs locale t duplicateValue
                      (property_name (targetKey decision)))
           | Rename \<Rightarrow>
               Inr (performRename config fs locale t duplicateValue
                      (property_name (newKey decision)))
           | Keep_separate \<Rightarrow> Inr fs))"

section \<open>BackupSystem\<close>

text \<open>
  The backup directory is the list of its entries as \<open>readdir\<close> gives them, or absent.
  An entry is a snapshot directory, with the manifest \<open>backup-info.json\<close> when that file
  is there and parses, or something that is not a directory. Ids are used as directory
  names. \<open>new Date(timestamp).getTime()\<close> is a parameter, \<open>getTime\<close>.
\<close>

record BackupInfo =
  backupId :: jstring
  timestamp :: jstring
  files :: "jstring list"
  description :: jstring

datatype backup_entry = Snapshot "BackupInfo option" | Not_a_directory

type_synonym backup_dir = "(jstring \<times> backup_entry) list option"

definition manifests :: "(jstring \<times> backup_entry) list \<Rightarrow> BackupInfo list" where
  \<comment> \<open>the loop of \<open>listBackups\<close> over the entries: the manifest of every snapshot
     directory that has a readable one\<close>
  "manifests entries =
     concat (map (\<lambda>(name, e). case e of
                                  Snapshot (Some info) \<Rightarrow> [info]
                                | Snapshot None \<Rightarrow> []
                                | Not_a_directory \<Rightarrow> []) entries)"

definition listBackups :: "(jstring \<Rightarrow> int) \<Rightarrow> backup_dir \<Rightarrow> BackupInfo list" where
  \<comment> \<open>the manifests, newest first; \<open>sort\<close> is stable, and the comparator
     \<open>time(b) - time(a)\<close> orders by descending time\<close>
  "listBackups getTime bd =
     (case bd of
        None \<Rightarrow> []
      | Some entries \<Rightarrow> sort_key (\<lambda>b. - getTime (timestamp b)) (manifests entries))"

definition deleteBackup :: "backup_dir \<Rightarrow> jstring \<Rightarrow> js_error + backup_dir" where
  "deleteBackup bd bid =
     (case bd of
        None \<Rightarrow> Inl (Error ''Backup not found'')
      | Some entries \<Rightarrow>
          (case map_of entries bid of
             None \<Rightarrow> Inl (Error ''Backup not found'')
           | Some Not_a_directory \<Rightarrow> Inl (Error ''Failed to delete backup'')
           | Some (Snapshot info) \<Rightarrow> Inr (Some (filter (\<lambda>(name, e). name \<noteq> bid) entries))))"

definition slice_from :: "'a list \<Rightarrow> int \<Rightarrow> 'a list" where
  \<comment> \<open>\<open>xs.slice(n)\<close>: a negative \<open>n\<close> counts from the end\<close>
  "slice_from xs n =
     (if n < 0 then drop (nat (max (int (length xs) + n) 0)) xs else drop (nat n) xs)"

definition cleanupOldBackups :: "(jstring \<Rightarrow> int) \<Rightarrow> backup_dir \<Rightarrow> int \<Rightarrow> backup_dir" where
  \<comment> \<open>the backup directory after the call; a deletion that fails is logged and skipped\<close>
  "cleanupOldBackups getTime bd keepCount =
     (let backups = listBackups getTime bd
      in if int (length backups) \<le> keepCount then bd
         else foldl (\<lambda>bd backup. case deleteBackup bd (backupId backup) of
                                    Inl e \<Rightarrow> bd
                                  | Inr bd' \<Rightarrow> bd')
                bd (slice_from backups keepCount))"

section \<open>Notions used in the properties\<close>

definition keys_with_value :: "store \<Rightarrow> jstring \<Rightarrow> jstring list" where
  \<comment> \<open>the keys of a record that hold the value \<open>v\<close>, unchanged, in the record's order\<close>
  "keys_with_value t v = map fst (filter (\<lambda>(k, v'). v' = v) t)"

definition well_formed :: "backup_dir \<Rightarrow> bool" where
  \<comment> \<open>what \<open>createBackup\<close> establishes: entries have different names, and the manifest
     of a snapshot carries the name of its directory as id\<close>
  "well_formed bd =
     (case bd of
        None \<Rightarrow> True
      | Some entries \<Rightarrow>
          distinct (map fst entries) \<and>
          list_all (\<lambda>(name, e). case e of
                                   Snapshot (Some info) \<Rightarrow> backupId info = name
                                 | Snapshot None \<Rightarrow> True
                                 | Not_a_directory \<Rightarrow> True) entries)"

definition remove_snapshots :: "backup_dir \<Rightarrow> jstring list \<Rightarrow> backup_dir" where
  \<comment> \<open>the backup directory without the entries of the given names\<close>
  "remove_snapshots bd ids = map_option (filter (\<lambda>(name, e). name \<notin> set ids)) bd"

section \<open>Properties of the key manager\<close>

subsection \<open>Fresh keys\<close>

lemma unique_loop_fresh: "unique_loop used k uk c \<notin> set used"
proof (induction used k uk c rule: unique_loop.induct)
  case (1 used k uk c)
  then show ?case by (subst unique_loop.simps) simp
qed

lemma unique_loop_not_Nil: "uk \<noteq> [] \<Longrightarrow> unique_loop used k uk c \<noteq> []"
proof (induction used k uk c rule: unique_loop.induct)
  case (1 used k uk c)
  then show ?case by (subst unique_loop.simps) (simp add: numbered_not_Nil)
qed

lemma next_free_fresh: "next_free used k c \<notin> set used"
proof (induction used k c rule: next_free.induct)
  case (1 used k c)
  then show ?case by (subst next_free.simps) simp
qed

lemma validateKey_valid_unused: "isValid (validateKey v k) \<Longrightarrow> k \<notin> set (usedKeys v)"
  by (simp add: validateKey_def Let_def split: if_splits)

lemma validateKey_valid_not_Nil: "isValid (validateKey v k) \<Longrightarrow> k \<noteq> []"
  by (auto simp add: validateKey_def)

lemma normalizeKey_fresh: "k \<noteq> [] \<Longrightarrow> fst (normalizeKey v k) \<notin> set (usedKeys v)"
  by (simp add: normalizeKey_def Let_def validator_ensureUniqueness_def unique_loop_fresh)

lemma normalizeKey_frame: "snd (normalizeKey v k) = v"
  by (simp add: normalizeKey_def Let_def)

lemma handleKeyDuplicate_fresh:
  "handleKeyDuplicate km k context \<notin> set (usedKeys (keyValidator km))"
  by (simp add: handleKeyDuplicate_def isKeyUsed_def next_free_fresh)

lemma generator_truncateKey_not_Nil:
  "k \<noteq> [] \<Longrightarrow> 1 \<le> maxLength_opt opts \<Longrightarrow> generator_truncateKey opts k \<noteq> []"
  by (cases k) (auto simp: generator_truncateKey_def Let_def substring0_def nat_le_iff
      dest!: take_eq_Nil[THEN iffD1])

lemma createSemanticKey_not_Nil:
  "1 \<le> maxLength_opt opts \<Longrightarrow> createSemanticKey opts t context \<noteq> []"
  unfolding createSemanticKey_def Let_def
  by (simp add: generator_truncateKey_not_Nil js_def)

lemma generateKey_not_Nil:
  "1 \<le> maxLength_opt (options g) \<Longrightarrow> key (fst (generateKey g t context)) \<noteq> []"
  by (simp add: generateKey_def Let_def generator_ensureUniqueness_def
      unique_loop_not_Nil createSemanticKey_not_Nil)

lemma generateKey_options: "options (snd (generateKey g t context)) = options g"
  by (simp add: generateKey_def Let_def generator_ensureUniqueness_def)


lemma handleKeyDuplicate_validator:
  "keyValidator km' = keyValidator km \<Longrightarrow>
   handleKeyDuplicate km' k ctx \<notin> set (usedKeys (keyValidator km))"
  using handleKeyDuplicate_fresh [of km' k ctx] by simp

lemma processTextForKey_fresh:
  assumes "1 \<le> maxLength_opt (options (keyGenerator km))"
  shows "finalKey (fst (processTextForKey km t locale context)) \<notin> set (usedKeys (keyValidator km))"
proof -
  let ?gk = "fst (generateKey (keyGenerator km) t context)"
  have ne: "key ?gk \<noteq> []" using assms by (rule generateKey_not_Nil)
  show ?thesis
  proof (cases "isValid (validateKey (keyValidator km) (key ?gk))")
    case True
    then have "key ?gk \<notin> set (usedKeys (keyValidator km))"
      by (rule validateKey_valid_unused)
    with True show ?thesis
      by (simp add: processTextForKey_def Let_def split_def handleKeyDuplicate_validator)
  next
    case False
    have "fst (normalizeKey (keyValidator km) (key ?gk)) \<notin> set (usedKeys (keyValidator km))"
      using ne by (rule normalizeKey_fresh)
    with False show ?thesis
      by (simp add: processTextForKey_def Let_def split_def normalizeKey_frame
          handleKeyDuplicate_validator)
  qed
qed

lemma processTextForKey_used:
  "usedKeys (keyValidator (snd (processTextForKey km t locale context))) =
     set_add (usedKeys (keyValidator km)) (finalKey (fst (processTextForKey km t locale context)))"
  by (simp add: processTextForKey_def Let_def split_def normalizeKey_frame markKeyAsUsed_def
      handleKeyDuplicate_def isKeyUsed_def)

lemma processTextForKey_options:
  "options (keyGenerator (snd (processTextForKey km t locale context))) =
     options (keyGenerator km)"
  by (simp add: processTextForKey_def Let_def split_def generateKey_options)

lemma set_set_add: "set (set_add ks k) = insert k (set ks)"
  by (auto simp: set_add_def)

lemma generateKeys_loop_distinct:
  "1 \<le> maxLength_opt (options (keyGenerator km)) \<Longrightarrow>
   distinct (map key results) \<Longrightarrow>
   set (map key results) \<subseteq> set (usedKeys (keyValidator km)) \<Longrightarrow>
   distinct (map key (fst (generateKeys_loop km results ms))) \<and>
   length (fst (generateKeys_loop km results ms)) = length results + length ms"
proof (induction ms arbitrary: km results)
  case Nil
  then show ?case by simp
next
  case (Cons m ms)
  let ?p = "processTextForKey km (match_text m) (js ''en'') (match_context m)"
  let ?r = "\<lparr>key = finalKey (fst ?p), originalText = match_text m,
             confidence = confidence (generatedKey (fst ?p)),
             suggestions = suggestions (generatedKey (fst ?p))\<rparr>"
  have fresh: "finalKey (fst ?p) \<notin> set (usedKeys (keyValidator km))"
    using Cons.prems(1) by (rule processTextForKey_fresh)
  have 1: "1 \<le> maxLength_opt (options (keyGenerator (snd ?p)))"
    using Cons.prems(1) by (simp add: processTextForKey_options)
  have 2: "distinct (map key (results @ [?r]))"
    using Cons.prems(2,3) fresh by auto
  have 3: "set (map key (results @ [?r])) \<subseteq> set (usedKeys (keyValidator (snd ?p)))"
    using Cons.prems(3) by (auto simp: processTextForKey_used set_set_add)
  have step: "generateKeys_loop km results (m # ms) =
      generateKeys_loop (snd ?p) (results @ [?r]) ms"
    by (simp add: split_def Let_def)
  have "length (results @ [?r]) + length ms = length results + length (m # ms)" by simp
  with Cons.IH [OF 1 2 3] show ?case unfolding step by metis
qed


text \<open>
  Claim C1. A batch of \<open>N\<close> matches run through \<open>generateKeys\<close> gives \<open>N\<close> results whose
  keys are pairwise different. Each final key is checked against the validator's used keys
  (by \<open>validateKey\<close>, by the loop that ends \<open>normalizeKey\<close>, or by \<open>handleKeyDuplicate\<close>)
  and then recorded there. The generator must not be configured with a maximal length below
  1, so that it never produces the empty key; the texts need not even differ.
\<close>

theorem generateKeys_distinct:
  "1 \<le> maxLength_opt (options (keyGenerator km)) \<Longrightarrow>
   length (fst (generateKeys km matches)) = length matches \<and>
   distinct (map key (fst (generateKeys km matches)))"
  using generateKeys_loop_distinct [of km "[]" matches] by (simp add: generateKeys_def)

theorem generateKeys_distinct_witness:
  "1 \<le> maxLength_opt (options (keyGenerator
      (new_KeyManager \<lparr>maxLength_opt = 50, useContext = True, prefix_opt = None\<rparr>
         DEFAULT_KEY_RULES))) \<and>
   length (fst (generateKeys
      (new_KeyManager \<lparr>maxLength_opt = 50, useContext = True, prefix_opt = None\<rparr>
         DEFAULT_KEY_RULES)
      [\<lparr>match_text = [1584, 1582, 1740, 1585, 1607], match_filePath = js ''a.vue'',
        match_context = Some (js ''btn'')\<rparr>,
       \<lparr>match_text = [1587, 1604, 1575, 1605], match_filePath = js ''a.vue'',
        match_context = None\<rparr>])) = 2 \<and>
   distinct (map key (fst (generateKeys
      (new_KeyManager \<lparr>maxLength_opt = 50, useContext = True, prefix_opt = None\<rparr>
         DEFAULT_KEY_RULES)
      [\<lparr>match_text = [1584, 1582, 1740, 1585, 1607], match_filePath = js ''a.vue'',
        match_context = Some (js ''btn'')\<rparr>,
       \<lparr>match_text = [1587, 1604, 1575, 1605], match_filePath = js ''a.vue'',
        match_context = None\<rparr>])))"
proof -
  have h: "1 \<le> maxLength_opt (options (keyGenerator
      (new_KeyManager \<lparr>maxLength_opt = 50, useContext = True, prefix_opt = None\<rparr>
         DEFAULT_KEY_RULES)))"
    by (simp add: new_KeyManager_def new_KeyGenerator_def)
  show ?thesis using h generateKeys_distinct [OF h] by simp
qed

section \<open>Properties of the validator\<close>

subsection \<open>Keys that pass validation are left alone\<close>

text \<open>
  Under the default rules \<open>normalizeKey\<close> returns a key that passes \<open>validateKey\<close> as
  it is. So normalizing twice can differ from normalizing once only where the first result
  does not pass validation.
\<close>

lemma lower_unit_key_char: "is_key_char c \<Longrightarrow> lower_unit c = [c]"
  by (auto simp: is_key_char_def is_lower_def is_digit_def underscore_def lower_unit_def
      is_upper_def)

lemma toLowerCase_key_chars: "list_all is_key_char k \<Longrightarrow> toLowerCase k = k"
  by (induction k) (simp_all add: toLowerCase_def lower_unit_key_char)

lemma collapse_no_double:
  "\<not> has_double_underscore k \<Longrightarrow> collapse_underscores k = k"
  unfolding collapse_underscores_def
  by (induction k rule: has_double_underscore.induct) auto

lemma strip_no_edges:
  "k \<noteq> [] \<Longrightarrow> hd k \<noteq> underscore \<Longrightarrow> last k \<noteq> underscore \<Longrightarrow> strip_underscores k = k"
proof -
  assume k: "k \<noteq> []" and h: "hd k \<noteq> underscore" and l: "last k \<noteq> underscore"
  from k h have 1: "dropWhile (\<lambda>c. c = underscore) k = k" by (cases k) auto
  from k l have "hd (rev k) \<noteq> underscore" by (simp add: hd_rev)
  with k have 2: "dropWhile (\<lambda>c. c = underscore) (rev k) = rev k" by (cases "rev k") auto
  show ?thesis by (simp add: strip_underscores_def 1 2)
qed

lemma unique_loop_unused: "uk \<notin> set used \<Longrightarrow> unique_loop used k uk c = uk"
  by (subst unique_loop.simps) simp

lemma valid_key_is_fixed_point:
  assumes r: "rules v = DEFAULT_KEY_RULES" and valid: "isValid (validateKey v k)"
  shows "fst (normalizeKey v k) = k"
proof -
  have ne: "k \<noteq> []" using valid by (auto simp: validateKey_def)
  have facts:
    "\<not> int (length k) < 2" "\<not> int (length k) > 100" "list_all is_key_char k"
    "\<not> has_double_underscore k" "hd k \<noteq> underscore" "last k \<noteq> underscore"
    "\<not> list_all is_digit k" "\<not> list_all (\<lambda>c. c = underscore) k"
    "\<not> is_reserved DEFAULT_KEY_RULES k" "k \<notin> set (usedKeys v)"
    using valid ne
    by (simp_all add: validateKey_def Let_def r DEFAULT_KEY_RULES_def allowed_re_def
        only_underscores_re_def only_digits_re_def multiple_underscores_re_def
        edge_underscore_re_def is_reserved_def split: if_splits)
  have low: "toLowerCase k = k" using facts(3) by (rule toLowerCase_key_chars)
  have "map (\<lambda>c. if is_key_char c then c else underscore) k = k"
    using facts(3) by (induction k) simp_all
  then have san: "sanitizeKey k = k"
    using ne facts by (simp add: sanitizeKey_def collapse_no_double strip_no_edges)
  have fixed: "fix_patterns DEFAULT_KEY_RULES k = k"
    using ne facts
    by (simp add: fix_patterns_def DEFAULT_KEY_RULES_def only_underscores_re_def
        only_digits_re_def multiple_underscores_re_def edge_underscore_re_def)
  show ?thesis
    using ne facts
    by (simp add: normalizeKey_def Let_def r low san fixed validator_ensureUniqueness_def
        unique_loop_unused lacks_prefix_def lacks_suffix_def)
      (simp add: DEFAULT_KEY_RULES_def)
qed

subsection \<open>The validator's truncation keeps the bound\<close>

lemma validator_truncate_loop_le:
  "int (length result) \<le> maxLen \<Longrightarrow>
   int (length (validator_truncate_loop maxLen result parts)) \<le> maxLen"
proof (induction parts arbitrary: result)
  case Nil
  then show ?case by simp
next
  case (Cons part parts)
  show ?case
  proof (cases "int (length result) + int (length part) + 1 \<le> maxLen")
    case True
    then have "int (length (result @ (if result \<noteq> [] then [underscore] else []) @ part)) \<le> maxLen"
      by simp
    from Cons.IH [OF this] True show ?thesis by simp
  next
    case False
    then show ?thesis using Cons.prems by (simp add: Let_def substring0_def)
  qed
qed

lemma validator_truncateKey_le:
  "0 \<le> maxLength r \<Longrightarrow> int (length (validator_truncateKey r k)) \<le> maxLength r"
  using validator_truncate_loop_le [of "[]" "maxLength r" "split_on underscore k"]
  by (simp add: validator_truncateKey_def Let_def substring0_def)

text \<open>
  Claim C2. The key returned by \<open>normalizeKey\<close> should pass \<open>validateKey\<close>. On a key
  without any letter or digit, such as \<open>!\<close>, it does not: sanitizing leaves the empty
  string, \<open>padKey\<close> pads it to \<open>_key\<close>, and \<open>validateKey\<close> rejects the leading
  underscore (default rules, no key used yet).
\<close>

theorem normalizeKey_result_rejected:
  "fst (normalizeKey (new_KeyValidator DEFAULT_KEY_RULES) (js ''!'')) = js ''_key'' \<and>
   errors (validateKey (snd (normalizeKey (new_KeyValidator DEFAULT_KEY_RULES) (js ''!'')))
             (fst (normalizeKey (new_KeyValidator DEFAULT_KEY_RULES) (js ''!'')))) =
     [Forbidden_pattern ''^_|_$''] \<and>
   \<not> isValid (validateKey (snd (normalizeKey (new_KeyValidator DEFAULT_KEY_RULES) (js ''!'')))
                  (fst (normalizeKey (new_KeyValidator DEFAULT_KEY_RULES) (js ''!''))))"
  by code_simp

text \<open>
  Claim C3. Normalizing twice should give what normalizing once gives. On the same key
  \<open>!\<close> it does not: the first pass returns \<open>_key\<close>, and the second pass strips the
  underscore and returns \<open>key\<close> (default rules, no key used, the validator unchanged in
  between). The first result is the key that validation rejects; a result that passes is
  returned unchanged by the second pass (lemma \<open>valid_key_is_fixed_point\<close>).
\<close>

theorem normalizeKey_twice_differs:
  "fst (normalizeKey (new_KeyValidator DEFAULT_KEY_RULES) (js ''!'')) = js ''_key'' \<and>
   fst (normalizeKey (snd (normalizeKey (new_KeyValidator DEFAULT_KEY_RULES) (js ''!'')))
          (fst (normalizeKey (new_KeyValidator DEFAULT_KEY_RULES) (js ''!'')))) = js ''key''"
  by code_simp

text \<open>
  Claim C10. \<open>normalizeKey\<close> only reads the used keys: the validator after the call is
  the validator before it, so a second call with the same argument returns the same key.
\<close>

theorem normalizeKey_keeps_usedKeys:
  "usedKeys (snd (normalizeKey v k)) = usedKeys v \<and>
   snd (normalizeKey v k) = v \<and>
   fst (normalizeKey (snd (normalizeKey v k)) k) = fst (normalizeKey v k)"
  by (simp add: normalizeKey_frame)

section \<open>Properties of the generator\<close>

text \<open>
  Claim C6. The truncation of the generator should return at most \<open>maxLength\<close> units. With
  \<open>maxLength = 10\<close> the key \<open>abcdefghi_xyz\<close> (13 units) keeps the segment \<open>abcdefghi\<close>;
  no room is left for the next one, yet \<open>Math.max(1, ...)\<close> still takes one unit of it, and
  the result \<open>abcdefghi_x\<close> has 11 units. \<open>createSemanticKey\<close> returns it for the text
  \<open>abcdefghi xyz\<close>. The validator's copy of the method tests \<open>remaining > 0\<close> instead
  and keeps the bound (lemma \<open>validator_truncateKey_le\<close>).
\<close>

theorem generator_truncateKey_too_long:
  "generator_truncateKey \<lparr>maxLength_opt = 10, useContext = True, prefix_opt = None\<rparr>
     (js ''abcdefghi_xyz'') = js ''abcdefghi_x'' \<and>
   createSemanticKey \<lparr>maxLength_opt = 10, useContext = True, prefix_opt = None\<rparr>
     (js ''abcdefghi xyz'') None = js ''abcdefghi_x'' \<and>
   length (js ''abcdefghi_x'') = 11"
  by code_simp

lemma confidence_table_loop_eq:
  "confidence_table_loop l ks c =
     (if list_ex (\<lambda>persian. length persian > 1 \<and> js_includes l (toLowerCase persian)) ks
      then c + 0.3 else c)"
  by (induction ks) auto

lemma contains_hello_save:
  "contains_table_word [1587, 1604, 1575, 1605, 32, 1584, 1582, 1740, 1585, 1607]"
  by code_simp

lemma no_exact_hello_save:
  "\<not> spec_exact_table_match [1587, 1604, 1575, 1605, 32, 1584, 1582, 1740, 1585, 1607]"
  by code_simp

lemma generateKey_hello_save:
  "key (fst (generateKey
      (new_KeyGenerator \<lparr>maxLength_opt = 50, useContext = True, prefix_opt = None\<rparr>)
      [1587, 1604, 1575, 1605, 32, 1584, 1582, 1740, 1585, 1607] None)) = js ''hello_save''"
  by code_simp

text \<open>
  Claim C7, as amended. The score is the clamp to \<open>[0, 1]\<close> of 0.5, plus 0.3 when the
  lower-cased original text contains an entry of the table that is longer than one unit,
  plus 0.1 when the key contains an underscore and is longer than 3, minus 0.2 when the key
  is shorter than 3 or is \<open>untranslated_text\<close>.
\<close>

theorem calculateConfidence_value:
  "calculateConfidence t k =
     max 0 (min 1
       (0.5 + (if contains_table_word t then 0.3 else 0)
            + (if underscore \<in> set k \<and> length k > 3 then 0.1 else 0)
            - (if length k < 3 \<or> k = js ''untranslated_text'' then 0.2 else 0)))"
  by (simp add: calculateConfidence_def contains_table_word_def confidence_table_loop_eq Let_def)

text \<open>
  Claim C7 as stated fails: the text of the two words for hello and save is no entry of the
  table, yet it contains one, and its key \<open>hello_save\<close> gets 0.9 where the stated rule
  gives 0.6.
\<close>

theorem calculateConfidence_not_exact_match:
  "key (fst (generateKey
      (new_KeyGenerator \<lparr>maxLength_opt = 50, useContext = True, prefix_opt = None\<rparr>)
      [1587, 1604, 1575, 1605, 32, 1584, 1582, 1740, 1585, 1607] None)) = js ''hello_save'' \<and>
   calculateConfidence [1587, 1604, 1575, 1605, 32, 1584, 1582, 1740, 1585, 1607]
     (js ''hello_save'') = 9 / 10 \<and>
   spec_confidence [1587, 1604, 1575, 1605, 32, 1584, 1582, 1740, 1585, 1607]
     (js ''hello_save'') = 6 / 10"
proof -
  have "calculateConfidence [1587, 1604, 1575, 1605, 32, 1584, 1582, 1740, 1585, 1607]
      (js ''hello_save'') = 9 / 10"
    by (simp add: calculateConfidence_def confidence_table_loop_eq Let_def
        contains_hello_save [unfolded contains_table_word_def]) code_simp
  moreover have "spec_confidence [1587, 1604, 1575, 1605, 32, 1584, 1582, 1740, 1585, 1607]
      (js ''hello_save'') = 6 / 10"
    unfolding spec_confidence_def by (simp add: no_exact_hello_save) code_simp
  ultimately show ?thesis using generateKey_hello_save by simp
qed


section \<open>Properties of the locale store\<close>

text \<open>
  Claim C8. Reading a locale whose file is missing returns the empty record, without an
  error; reading a locale whose file holds text that does not parse fails with the error
  \<open>Failed to read translation file\<close>, whatever else the file system holds.
\<close>

theorem readTranslationFile_missing_malformed:
  "readTranslationFile config (fs(getTranslationFilePath config locale := None)) locale = Inr [] \<and>
   readTranslationFile config
     (fs(getTranslationFilePath config locale \<mapsto> File (Malformed m))) locale =
     Inl (Error (''Failed to read translation file: '' @ m))"
  by (simp add: readTranslationFile_def readFile_def JSON_parse_def)

lemma readTranslationFile_record:
  "readTranslationFile config
     (fs(getTranslationFilePath config locale \<mapsto> File (Json_record t))) locale = Inr t"
  by (simp add: readTranslationFile_def readFile_def JSON_parse_def)

subsection \<open>Records as maps\<close>

lemma map_of_map_set: "map_of (map_set m k v) = (map_of m)(k \<mapsto> v)"
  by (induction m k v rule: map_set.induct) (auto simp: fun_eq_iff)

lemma fst_set_map_set: "fst ` set (map_set m k v) = insert k (fst ` set m)"
  by (induction m k v rule: map_set.induct) auto

lemma distinct_map_set: "distinct (map fst m) \<Longrightarrow> distinct (map fst (map_set m k v))"
  by (induction m k v rule: map_set.induct) (auto simp: fst_set_map_set)

lemma map_of_push_key:
  "map_of (push_key vm v k) =
     (map_of vm)(v \<mapsto> (case map_of vm v of None \<Rightarrow> [k] | Some ks \<Rightarrow> ks @ [k]))"
  by (simp add: push_key_def map_of_map_set split: option.split)

lemma distinct_push_key: "distinct (map fst vm) \<Longrightarrow> distinct (map fst (push_key vm v k))"
  by (simp add: push_key_def distinct_map_set split: option.split)

lemma group_loop:
  "distinct (map fst vm) \<Longrightarrow>
   distinct (map fst (foldl (\<lambda>valueMap (k, v). push_key valueMap v k) vm t)) \<and>
   (\<forall>v. map_of (foldl (\<lambda>valueMap (k, v). push_key valueMap v k) vm t) v =
      (case map_of vm v of
         None \<Rightarrow> if keys_with_value t v = [] then None else Some (keys_with_value t v)
       | Some ks \<Rightarrow> Some (ks @ keys_with_value t v)))"
proof (induction t arbitrary: vm)
  case Nil
  then show ?case by (simp add: keys_with_value_def split: option.split)
next
  case (Cons e t)
  obtain k v where e: "e = (k, v)" by (cases e)
  have d: "distinct (map fst (push_key vm v k))" using Cons.prems by (rule distinct_push_key)
  from Cons.IH [OF d] show ?case
    by (auto simp: e map_of_push_key keys_with_value_def split: option.split)
qed


lemma group_loop_empty:
  "distinct (map fst (foldl (\<lambda>valueMap (k, v). push_key valueMap v k) [] t)) \<and>
   (\<forall>v. map_of (foldl (\<lambda>valueMap (k, v). push_key valueMap v k) [] t) v =
      (if keys_with_value t v = [] then None else Some (keys_with_value t v)))"
  using group_loop [of "[]" t] by simp

lemma map_of_delete_key: "map_of (delete_key t k) = (map_of t)(k := None)"
  by (induction t) (auto simp: delete_key_def fun_eq_iff)

lemma map_of_sort_loop:
  "map_of (foldl (\<lambda>sorted k. case map_of t k of None \<Rightarrow> sorted | Some v \<Rightarrow> map_set sorted k v)
             acc ks) k =
     (if k \<in> set ks \<and> map_of t k \<noteq> None then map_of t k else map_of acc k)"
  by (induction ks arbitrary: acc) (auto simp: map_of_map_set split: option.splits)

lemma map_of_sortTranslations: "map_of (sortTranslations t) = map_of t"
proof
  fix k
  show "map_of (sortTranslations t) k = map_of t k"
  proof (cases "k \<in> fst ` set t")
    case True
    then have "map_of t k \<noteq> None" by (simp add: map_of_eq_None_iff)
    with True show ?thesis by (simp add: sortTranslations_def map_of_sort_loop)
  next
    case False
    then have "map_of t k = None" by (simp add: map_of_eq_None_iff)
    then show ?thesis by (simp add: sortTranslations_def map_of_sort_loop)
  qed
qed

lemma map_of_consolidate_loop:
  "map_of (foldl (\<lambda>t k. if k \<noteq> target then delete_key t k else t) t ks) k =
     (if k \<in> set ks \<and> k \<noteq> target then None else map_of t k)"
  by (induction ks arbitrary: t) (auto simp: map_of_delete_key)

lemma map_of_rename_loop:
  "map_of (foldl delete_key t ks) k = (if k \<in> set ks then None else map_of t k)"
  by (induction ks arbitrary: t) (auto simp: map_of_delete_key)

lemma read_after_write:
  "readTranslationFile config (writeTranslationFile config fs locale t) locale =
     Inr (sortTranslations t)"
  by (simp add: writeTranslationFile_def readTranslationFile_record)

lemma consolidate_single_key:
  assumes "set (dup_keys d) = {k. map_of t k = Some (dup_value d)}"
  shows "\<exists>fs' t'.
     consolidateDuplicates config
       (fs(getTranslationFilePath config locale \<mapsto> File (Json_record t))) locale d
       \<lparr>decision_action = Consolidate, targetKey = Some target, newKey = nk\<rparr> = Inr fs' \<and>
     readTranslationFile config fs' locale = Inr t' \<and>
     (\<forall>k. (map_of t' k = Some (dup_value d)) = (k = target)) \<and>
     (\<forall>k \<in> set (dup_keys d). k \<noteq> target \<longrightarrow> map_of t' k = None) \<and>
     (\<forall>k. k \<notin> set (dup_keys d) \<and> k \<noteq> target \<longrightarrow> map_of t' k = map_of t k)"
  using assms
  by (auto simp: consolidateDuplicates_def readTranslationFile_record performConsolidation_def
      read_after_write map_of_sortTranslations map_of_consolidate_loop map_of_map_set
      property_name_def)

lemma rename_single_key:
  assumes "set (dup_keys d) = {k. map_of t k = Some (dup_value d)}"
    and "new \<notin> set (dup_keys d)"
  shows "\<exists>fs' t'.
     consolidateDuplicates config
       (fs(getTranslationFilePath config locale \<mapsto> File (Json_record t))) locale d
       \<lparr>decision_action = Rename, targetKey = tk, newKey = Some new\<rparr> = Inr fs' \<and>
     readTranslationFile config fs' locale = Inr t' \<and>
     (\<forall>k. (map_of t' k = Some (dup_value d)) = (k = new)) \<and>
     (\<forall>k \<in> set (dup_keys d). map_of t' k = None)"
  using assms
  by (auto simp: consolidateDuplicates_def readTranslationFile_record performRename_def
      read_after_write map_of_sortTranslations map_of_rename_loop map_of_map_set
      property_name_def)

text \<open>
  Claim C4. Consolidation and renaming should never lose the duplicated value. Two lemmas
  above show what holds: \<open>consolidate\<close> leaves the target key as the only key of the value,
  and so does \<open>rename\<close> for a new key that is not one of the listed keys. For a new key
  that is one of them the value is lost: \<open>performRename\<close> first assigns the new key and then
  deletes every listed key, the new one included (\<open>performConsolidation\<close> spares its
  target). Renaming the two keys of the value to \<open>save_btn\<close>, one of the two, leaves the
  empty record.
\<close>

theorem rename_to_listed_key_loses_value:
  "(case consolidateDuplicates
      \<lparr>locales_source = js ''fa'', locales_target = js ''en'',
       translationFiles_directory = js ''locales'', createBackups = True\<rparr>
      ((Map.empty :: file_system)(js ''locales/fa.json'' \<mapsto>
         File (Json_record [(js ''save_btn'', [1584, 1582, 1740, 1585, 1607]),
                            (js ''confirm_save'', [1584, 1582, 1740, 1585, 1607])])))
      (js ''fa'')
      \<lparr>dup_value = [1584, 1582, 1740, 1585, 1607],
       dup_keys = [js ''save_btn'', js ''confirm_save''], dup_locales = [js ''fa'']\<rparr>
      \<lparr>decision_action = Rename, targetKey = None, newKey = Some (js ''save_btn'')\<rparr> of
     Inl e \<Rightarrow> False
   | Inr fs' \<Rightarrow>
       readTranslationFile
         \<lparr>locales_source = js ''fa'', locales_target = js ''en'',
          translationFiles_directory = js ''locales'', createBackups = True\<rparr>
         fs' (js ''fa'') = Inr [])"
  by code_simp

subsection \<open>The duplicate scan\<close>

lemma scanForDuplicateValues_report:
  "map_of (duplicatesByLocale (scanForDuplicateValues config fs)) locale =
     (if (locale = locales_source config \<or> locale = locales_target config) \<and>
         findDuplicatesInLocale config fs locale \<noteq> []
      then Some (findDuplicatesInLocale config fs locale) else None)"
  by (simp add: scanForDuplicateValues_def scan_locale_def Let_def map_of_map_set)

text \<open>
  Claim C5, as amended. For a locale file that holds a record, the scan reports exactly the
  groups of two or more keys that hold the same value, the value taken as it stands in the
  file (no trimming, no change of case), each value once; a value held by one key gives no
  group.
\<close>

theorem findDuplicatesInLocale_groups:
  "(g \<in> set (findDuplicatesInLocale config
              (fs(getTranslationFilePath config locale \<mapsto> File (Json_record t))) locale)) =
     (dup_locales g = [locale] \<and> dup_keys g = keys_with_value t (dup_value g) \<and>
      2 \<le> length (dup_keys g)) \<and>
   distinct (map dup_value (findDuplicatesInLocale config
              (fs(getTranslationFilePath config locale \<mapsto> File (Json_record t))) locale))"
proof -
  define vm where "vm = foldl (\<lambda>valueMap (k, v). push_key valueMap v k) [] t"
  have d: "distinct (map fst vm)"
    and m: "\<And>v. map_of vm v =
      (if keys_with_value t v = [] then None else Some (keys_with_value t v))"
    using group_loop_empty [of t] by (simp_all add: vm_def)
  have res: "findDuplicatesInLocale config
      (fs(getTranslationFilePath config locale \<mapsto> File (Json_record t))) locale =
      map (\<lambda>(v, ks). \<lparr>dup_value = v, dup_keys = ks, dup_locales = [locale]\<rparr>)
        (filter (\<lambda>(v, ks). length ks > 1) vm)"
    by (simp add: findDuplicatesInLocale_def readTranslationFile_record vm_def)
  have mem: "\<And>v ks. ((v, ks) \<in> set vm) = (ks = keys_with_value t v \<and> ks \<noteq> [])"
  proof -
    fix v ks
    have "((v, ks) \<in> set vm) = (map_of vm v = Some ks)" using d by simp
    also have "\<dots> = (ks = keys_with_value t v \<and> ks \<noteq> [])" by (auto simp: m)
    finally show "((v, ks) \<in> set vm) = (ks = keys_with_value t v \<and> ks \<noteq> [])" .
  qed
  have 1: "(g \<in> set (map (\<lambda>(v, ks). \<lparr>dup_value = v, dup_keys = ks, dup_locales = [locale]\<rparr>)
        (filter (\<lambda>(v, ks). length ks > 1) vm))) =
     (dup_locales g = [locale] \<and> dup_keys g = keys_with_value t (dup_value g) \<and>
      2 \<le> length (dup_keys g))"
  proof
    assume "g \<in> set (map (\<lambda>(v, ks). \<lparr>dup_value = v, dup_keys = ks, dup_locales = [locale]\<rparr>)
        (filter (\<lambda>(v, ks). length ks > 1) vm))"
    then obtain v ks where "(v, ks) \<in> set vm" "length ks > 1"
      "g = \<lparr>dup_value = v, dup_keys = ks, dup_locales = [locale]\<rparr>" by auto
    then show "dup_locales g = [locale] \<and> dup_keys g = keys_with_value t (dup_value g) \<and>
      2 \<le> length (dup_keys g)" by (simp add: mem)
  next
    assume r: "dup_locales g = [locale] \<and> dup_keys g = keys_with_value t (dup_value g) \<and>
      2 \<le> length (dup_keys g)"
    then have "(dup_value g, dup_keys g) \<in> set vm" by (auto simp: mem)
    moreover have "g = \<lparr>dup_value = dup_value g, dup_keys = dup_keys g, dup_locales = [locale]\<rparr>"
      using r by simp
    ultimately show "g \<in> set (map (\<lambda>(v, ks). \<lparr>dup_value = v, dup_keys = ks, dup_locales = [locale]\<rparr>)
        (filter (\<lambda>(v, ks). length ks > 1) vm))"
      using r by force
  qed
  have eq: "map dup_value (map (\<lambda>(v, ks). \<lparr>dup_value = v, dup_keys = ks, dup_locales = [locale]\<rparr>)
        (filter (\<lambda>(v, ks). length ks > 1) vm)) = map fst (filter (\<lambda>(v, ks). length ks > 1) vm)"
    by (induction vm) auto
  have 2: "distinct (map dup_value (map (\<lambda>(v, ks). \<lparr>dup_value = v, dup_keys = ks, dup_locales = [locale]\<rparr>)
        (filter (\<lambda>(v, ks). length ks > 1) vm)))"
    unfolding eq using d by (rule distinct_map_filter)
  show ?thesis unfolding res using 1 2 by simp
qed

text \<open>
  Claim C5 as stated fails: \<open>Save\<close> and \<open>save\<close> are the same after normalization, and the
  scan of a file that holds them under two keys reports nothing.
\<close>

theorem scan_misses_normalized_duplicates:
  "normalizeValue (js ''Save'') = normalizeValue (js ''save'') \<and>
   findDuplicatesInLocale
     \<lparr>locales_source = js ''fa'', locales_target = js ''en'',
      translationFiles_directory = js ''locales'', createBackups = True\<rparr>
     ((Map.empty :: file_system)(js ''locales/en.json'' \<mapsto>
        File (Json_record [(js ''a'', js ''Save''), (js ''b'', js ''save'')])))
     (js ''en'') = [] \<and>
   totalDuplicates (scanForDuplicateValues
     \<lparr>locales_source = js ''fa'', locales_target = js ''en'',
      translationFiles_directory = js ''locales'', createBackups = True\<rparr>
     ((Map.empty :: file_system)(js ''locales/en.json'' \<mapsto>
        File (Json_record [(js ''a'', js ''Save''), (js ''b'', js ''save'')])))) = 0"
  by code_simp

section \<open>Properties of the backups\<close>

lemma manifests_mem:
  "b \<in> set (manifests entries) = ((backupId b, Snapshot (Some b)) \<in> set entries)"
  if "list_all (\<lambda>(name, e). case e of
                                   Snapshot (Some info) \<Rightarrow> backupId info = name
                                 | Snapshot None \<Rightarrow> True
                                 | Not_a_directory \<Rightarrow> True) entries"
  using that
  by (induction entries) (auto simp: manifests_def split: backup_entry.splits option.splits)

lemma delete_loop:
  "\<forall>b \<in> set bs. (backupId b, Not_a_directory) \<notin> set entries \<Longrightarrow>
   foldl (\<lambda>bd backup. case deleteBackup bd (backupId backup) of
                          Inl e \<Rightarrow> bd | Inr bd' \<Rightarrow> bd') (Some entries) bs =
     Some (filter (\<lambda>(name, e). name \<notin> backupId ` set bs) entries)"
proof (induction bs arbitrary: entries)
  case Nil
  then show ?case by simp
next
  case (Cons b bs)
  let ?step = "case deleteBackup (Some entries) (backupId b) of
                 Inl e \<Rightarrow> Some entries | Inr bd' \<Rightarrow> bd'"
  have step: "?step = Some (filter (\<lambda>(name, e). name \<noteq> backupId b) entries)"
  proof (cases "map_of entries (backupId b)")
    case None
    then have "backupId b \<notin> fst ` set entries" by (simp add: map_of_eq_None_iff)
    then have "filter (\<lambda>(name, e). name \<noteq> backupId b) entries = entries"
      by (auto simp: filter_id_conv rev_image_eqI)
    with None show ?thesis by (simp add: deleteBackup_def)
  next
    case (Some e)
    then have "(backupId b, e) \<in> set entries" by (rule map_of_SomeD)
    with Cons.prems have "e \<noteq> Not_a_directory" by auto
    with Some show ?thesis by (cases e) (simp_all add: deleteBackup_def)
  qed
  have "\<forall>b' \<in> set bs. (backupId b', Not_a_directory) \<notin>
      set (filter (\<lambda>(name, e). name \<noteq> backupId b) entries)"
    using Cons.prems by auto
  from Cons.IH [OF this] show ?case
    by (simp add: step) (rule filter_cong, auto)
qed

lemma filter_append_disjoint:
  "h ` set ys \<inter> h ` set zs = {} \<Longrightarrow> filter (\<lambda>x. h x \<notin> h ` set zs) (ys @ zs) = ys"
  by (auto simp: filter_id_conv filter_empty_conv)

lemma filter_drop_take:
  assumes "distinct (map h xs)"
  shows "filter (\<lambda>x. h x \<notin> h ` set (drop n xs)) xs = take n xs"
proof -
  have "distinct (map h (take n xs) @ map h (drop n xs))"
    using assms by (metis append_take_drop_id map_append)
  then have "h ` set (take n xs) \<inter> h ` set (drop n xs) = {}" by auto
  then have "filter (\<lambda>x. h x \<notin> h ` set (drop n xs)) (take n xs @ drop n xs) = take n xs"
    by (rule filter_append_disjoint)
  then show ?thesis by (simp only: append_take_drop_id)
qed


lemma manifests_filter:
  "list_all (\<lambda>(name, e). case e of
                             Snapshot (Some info) \<Rightarrow> backupId info = name
                           | Snapshot None \<Rightarrow> True
                           | Not_a_directory \<Rightarrow> True) entries \<Longrightarrow>
   manifests (filter (\<lambda>(name, e). name \<notin> D) entries) =
     filter (\<lambda>b. backupId b \<notin> D) (manifests entries)"
  by (induction entries) (auto simp: manifests_def split: backup_entry.splits option.splits)

lemma manifests_distinct_ids:
  assumes "distinct (map fst entries)"
    and "list_all (\<lambda>(name, e). case e of
                             Snapshot (Some info) \<Rightarrow> backupId info = name
                           | Snapshot None \<Rightarrow> True
                           | Not_a_directory \<Rightarrow> True) entries"
  shows "distinct (map backupId (manifests entries))"
  using assms
proof (induction entries)
  case Nil
  then show ?case by (simp add: manifests_def)
next
  case (Cons x entries)
  obtain name e where x: "x = (name, e)" by (cases x)
  have wf: "list_all (\<lambda>(name, e). case e of
                             Snapshot (Some info) \<Rightarrow> backupId info = name
                           | Snapshot None \<Rightarrow> True
                           | Not_a_directory \<Rightarrow> True) entries"
    using Cons.prems(2) by simp
  have ih: "distinct (map backupId (manifests entries))"
    using Cons.IH Cons.prems(1) wf by simp
  have sub: "backupId ` set (manifests entries) \<subseteq> fst ` set entries"
    using manifests_mem [OF wf] by force
  have "name \<notin> fst ` set entries" using Cons.prems(1) by (simp add: x)
  with sub have "name \<notin> backupId ` set (manifests entries)" by blast
  moreover have "manifests (x # entries) =
      (case e of Snapshot (Some info) \<Rightarrow> [info] | Snapshot None \<Rightarrow> [] | Not_a_directory \<Rightarrow> [])
      @ manifests entries"
    by (simp add: manifests_def x)
  ultimately show ?case
    using ih Cons.prems(2) by (auto simp: x split: backup_entry.splits option.splits)
qed

text \<open>
  Claim C9. On a well-formed backup directory and for a keep count that is not negative,
  \<open>cleanupOldBackups\<close> removes exactly the snapshots listed after the first \<open>keep\<close> ones
  (the list is sorted by descending time), so that the list afterwards is the first \<open>keep\<close>
  of the list before; when no more than \<open>keep\<close> snapshots are listed, nothing changes.
\<close>

theorem cleanupOldBackups_keeps_newest:
  assumes wf: "well_formed bd" and keep: "0 \<le> keepCount"
  shows "cleanupOldBackups getTime bd keepCount =
           remove_snapshots bd (map backupId (drop (nat keepCount) (listBackups getTime bd))) \<and>
         listBackups getTime (cleanupOldBackups getTime bd keepCount) =
           take (nat keepCount) (listBackups getTime bd) \<and>
         (int (length (listBackups getTime bd)) \<le> keepCount \<longrightarrow>
            cleanupOldBackups getTime bd keepCount = bd)"
proof (cases bd)
  case None
  then show ?thesis
    using keep by (simp add: cleanupOldBackups_def listBackups_def remove_snapshots_def)
next
  case (Some entries)
  let ?f = "\<lambda>b. - getTime (timestamp b)"
  let ?bs = "listBackups getTime bd"
  let ?D = "backupId ` set (drop (nat keepCount) ?bs)"
  have d: "distinct (map fst entries)"
    and la: "list_all (\<lambda>(name, e). case e of
                             Snapshot (Some info) \<Rightarrow> backupId info = name
                           | Snapshot None \<Rightarrow> True
                           | Not_a_directory \<Rightarrow> True) entries"
    using wf by (simp_all add: well_formed_def Some)
  have bs: "?bs = sort_key ?f (manifests entries)" by (simp add: Some listBackups_def)
  have dist: "distinct (map backupId ?bs)"
    using manifests_distinct_ids [OF d la] by (simp add: bs distinct_map)
  have listed: "listBackups getTime (Some (filter (\<lambda>(name, e). name \<notin> ?D) entries)) =
      take (nat keepCount) ?bs"
  proof -
    have "listBackups getTime (Some (filter (\<lambda>(name, e). name \<notin> ?D) entries)) =
        sort_key ?f (filter (\<lambda>b. backupId b \<notin> ?D) (manifests entries))"
      by (simp add: listBackups_def manifests_filter [OF la])
    also have "\<dots> = filter (\<lambda>b. backupId b \<notin> ?D) ?bs"
      by (simp add: bs filter_sort)
    also have "\<dots> = take (nat keepCount) ?bs"
      using dist by (rule filter_drop_take)
    finally show ?thesis .
  qed
  have removed: "remove_snapshots bd (map backupId (drop (nat keepCount) ?bs)) =
      Some (filter (\<lambda>(name, e). name \<notin> ?D) entries)"
    by (simp add: remove_snapshots_def Some)
  show ?thesis
  proof (cases "int (length ?bs) \<le> keepCount")
    case True
    then have "drop (nat keepCount) ?bs = []" by simp
    then have "filter (\<lambda>(name, e). name \<notin> ?D) entries = entries" by simp
    with True show ?thesis
      using listed removed by (simp add: cleanupOldBackups_def Let_def Some)
  next
    case False
    have sl: "slice_from ?bs keepCount = drop (nat keepCount) ?bs"
      using keep by (simp add: slice_from_def)
    have "\<forall>b \<in> set (drop (nat keepCount) ?bs). (backupId b, Not_a_directory) \<notin> set entries"
    proof
      fix b assume "b \<in> set (drop (nat keepCount) ?bs)"
      then have "b \<in> set ?bs" by (rule in_set_dropD)
      then have "b \<in> set (manifests entries)" by (simp add: bs)
      then have "(backupId b, Snapshot (Some b)) \<in> set entries"
        by (simp add: manifests_mem [OF la])
      with d show "(backupId b, Not_a_directory) \<notin> set entries"
        by (metis backup_entry.distinct(1) eq_key_imp_eq_value)
    qed
    then have "cleanupOldBackups getTime bd keepCount =
        Some (filter (\<lambda>(name, e). name \<notin> ?D) entries)"
      using False delete_loop [of "drop (nat keepCount) ?bs" entries]
      by (simp add: cleanupOldBackups_def Let_def sl) (simp add: Some)
    with False show ?thesis using listed removed by simp
  qed
qed

theorem cleanupOldBackups_keeps_newest_witness:
  "well_formed (Some
     [(js ''b1'', Snapshot (Some \<lparr>backupId = js ''b1'', timestamp = js ''2024-01-01'',
         files = [js ''fa.json''], description = js ''first''\<rparr>)),
      (js ''notes.txt'', Not_a_directory),
      (js ''b2'', Snapshot (Some \<lparr>backupId = js ''b2'', timestamp = js ''2024-01-02'',
         files = [js ''fa.json''], description = js ''second''\<rparr>)),
      (js ''b3'', Snapshot None)]) \<and>
   (0::int) \<le> 1 \<and>
   cleanupOldBackups (\<lambda>t. if t = js ''2024-01-02'' then 2 else 1) (Some
     [(js ''b1'', Snapshot (Some \<lparr>backupId = js ''b1'', timestamp = js ''2024-01-01'',
         files = [js ''fa.json''], description = js ''first''\<rparr>)),
      (js ''notes.txt'', Not_a_directory),
      (js ''b2'', Snapshot (Some \<lparr>backupId = js ''b2'', timestamp = js ''2024-01-02'',
         files = [js ''fa.json''], description = js ''second''\<rparr>)),
      (js ''b3'', Snapshot None)]) 1 =
     Some
     [(js ''notes.txt'', Not_a_directory),
      (js ''b2'', Snapshot (Some \<lparr>backupId = js ''b2'', timestamp = js ''2024-01-02'',
         files = [js ''fa.json''], description = js ''second''\<rparr>)),
      (js ''b3'', Snapshot None)] \<and>
   listBackups (\<lambda>t. if t = js ''2024-01-02'' then 2 else 1)
     (cleanupOldBackups (\<lambda>t. if t = js ''2024-01-02'' then 2 else 1) (Some
       [(js ''b1'', Snapshot (Some \<lparr>backupId = js ''b1'', timestamp = js ''2024-01-01'',
           files = [js ''fa.json''], description = js ''first''\<rparr>)),
        (js ''notes.txt'', Not_a_directory),
        (js ''b2'', Snapshot (Some \<lparr>backupId = js ''b2'', timestamp = js ''2024-01-02'',
           files = [js ''fa.json''], description = js ''second''\<rparr>)),
        (js ''b3'', Snapshot None)]) 1) =
     take (nat 1) (listBackups (\<lambda>t. if t = js ''2024-01-02'' then 2 else 1) (Some
       [(js ''b1'', Snapshot (Some \<lparr>backupId = js ''b1'', timestamp = js ''2024-01-01'',
           files = [js ''fa.json''], description = js ''first''\<rparr>)),
        (js ''notes.txt'', Not_a_directory),
        (js ''b2'', Snapshot (Some \<lparr>backupId = js ''b2'', timestamp = js ''2024-01-02'',
           files = [js ''fa.json''], description = js ''second''\<rparr>)),
        (js ''b3'', Snapshot None)]))"
proof -
  let ?bd = "Some
     [(js ''b1'', Snapshot (Some \<lparr>backupId = js ''b1'', timestamp = js ''2024-01-01'',
         files = [js ''fa.json''], description = js ''first''\<rparr>)),
      (js ''notes.txt'', Not_a_directory),
      (js ''b2'', Snapshot (Some \<lparr>backupId = js ''b2'', timestamp = js ''2024-01-02'',
         files = [js ''fa.json''], description = js ''second''\<rparr>)),
      (js ''b3'', Snapshot None)]"
  have wf: "well_formed ?bd" by code_simp
  have keep: "(0::int) \<le> 1" by simp
  have run: "cleanupOldBackups (\<lambda>t. if t = js ''2024-01-02'' then 2 else 1) ?bd 1 =
     Some
     [(js ''notes.txt'', Not_a_directory),
      (js ''b2'', Snapshot (Some \<lparr>backupId = js ''b2'', timestamp = js ''2024-01-02'',
         files = [js ''fa.json''], description = js ''second''\<rparr>)),
      (js ''b3'', Snapshot None)]"
    by code_simp
  note listed = cleanupOldBackups_keeps_newest
    [OF wf keep, of "\<lambda>t. if t = js ''2024-01-02'' then 2 else 1", THEN conjunct2, THEN conjunct1]
  show ?thesis
    using wf keep run listed by (intro conjI)
qed

end
